theory Spec2Isabelle
  imports Main "HOL-Library.Word"
begin

unbundle bit_operations_syntax

section \<open>SD card driver over SPI (sdcard.c)\<close>

text \<open>
  A shallow embedding of \<^verbatim>\<open>app/src/sdcard.c\<close>. The driver talks to three devices it
  does not own: the SPI link, a millisecond timer and the debug console. Every call to
  one of them is recorded, in program order, as an event of the trace of the state.
\<close>

type_synonym u8 = "8 word"
type_synonym u32 = "32 word"

subsection \<open>State\<close>

text \<open>
  \<open>Xfer a b\<close> is one call \<^verbatim>\<open>SPI1_Transmit(a)\<close> that returned \<open>b\<close>;
  \<open>ReadBuf p bs\<close> is \<^verbatim>\<open>SPI1_ReadBuffer(p, n)\<close> that received the \<open>n\<close> bytes \<open>bs\<close>;
  \<open>SendBuf p bs\<close> is \<^verbatim>\<open>SPI1_SendBuffer(p, n)\<close> that sent the \<open>n\<close> bytes \<open>bs\<close>;
  \<open>Delay ms\<close> is \<^verbatim>\<open>TIMER_Delay(ms)\<close>; \<open>Printf fmt args\<close> is one call of printf.
\<close>

datatype event =
    SpiInit
  | Select
  | Deselect
  | Xfer u8 u8
  | ReadBuf u32 "u8 list"
  | SendBuf u32 "u8 list"
  | Delay nat
  | Printf string "u8 list"

text \<open>
  The state of a run: the trace so far, the card (the bytes it puts on the link, one per
  clocked byte: \<open>rx w n\<close> answers the \<open>n\<close>-th byte clocked since power-on), how many
  bytes have been clocked (\<open>pos\<close>), the caller's memory (bytes at 32-bit addresses,
  where the buffers of the transfer functions live), and the one static variable of
  the driver, \<^verbatim>\<open>static uint8_t isSDHC\<close>, which is not part of that memory.
  Every behaviour of a card is some sequence of answers, so a statement about all \<open>rx\<close>
  is a statement about all cards.
\<close>

record world =
  trace :: "event list"
  rx :: "nat \<Rightarrow> u8"
  pos :: nat
  mem :: "u32 \<Rightarrow> u8"
  isSDHC :: u8

text \<open>
  How a call ends. \<open>Returned v w\<close>: it returns \<open>v\<close> in state \<open>w\<close>. \<open>Halted w\<close>: it
  reached \<^verbatim>\<open>while(1);\<close> in state \<open>w\<close> and spins there for ever, with no further event.
  \<open>OutOfFuel w\<close>: a busy-wait loop was followed for as many iterations as the fuel
  allows and had not ended in state \<open>w\<close>.
\<close>

datatype 'a outcome = Returned 'a world | Halted world | OutOfFuel world

fun state_of :: "'a outcome \<Rightarrow> world" where
  "state_of (Returned v w) = w"
| "state_of (Halted w) = w"
| "state_of (OutOfFuel w) = w"

text \<open>The events a run from \<open>w\<close> to \<open>w'\<close> added, and the SPI byte exchanges among events.\<close>

definition events_since :: "world \<Rightarrow> world \<Rightarrow> event list" where
  "events_since w w' = drop (length (trace w)) (trace w')"

fun exchanges :: "event list \<Rightarrow> (u8 \<times> u8) list" where
  "exchanges [] = []"
| "exchanges (Xfer a b # es) = (a, b) # exchanges es"
| "exchanges (e # es) = exchanges es"

definition log_event :: "event \<Rightarrow> world \<Rightarrow> world" where
  "log_event e w = w\<lparr>trace := trace w @ [e]\<rparr>"

subsection \<open>Collaborators (spi1.c, timers.c, stdio)\<close>

text \<open>
  Modelled from the spec: \<^verbatim>\<open>SPI1_Init\<close>, \<^verbatim>\<open>SPI1_Select\<close>, \<^verbatim>\<open>SPI1_Deselect\<close>,
  \<^verbatim>\<open>SPI1_Transmit\<close>, \<^verbatim>\<open>SPI1_ReadBuffer\<close>, \<^verbatim>\<open>SPI1_SendBuffer\<close> (spi1.c) and
  \<^verbatim>\<open>TIMER_Delay\<close> (timers.c) are not part of the sources at hand. The spec gives their
  contracts: select and deselect the card, transmit one byte and receive the reply byte,
  read a block into a buffer, write a block from a buffer, wait some milliseconds.
  Here a block transfer of \<open>len\<close> bytes clocks \<open>len\<close> bytes: \<open>SPI1_ReadBuffer\<close> stores
  the bytes the card answers at \<open>buf\<close> and the addresses after it, \<open>SPI1_SendBuffer\<close>
  sends the bytes found there and drops the answers.
\<close>

definition SPI1_Init :: "world \<Rightarrow> world" where
  "SPI1_Init w = log_event SpiInit w"

definition SPI1_Select :: "world \<Rightarrow> world" where
  "SPI1_Select w = log_event Select w"

definition SPI1_Deselect :: "world \<Rightarrow> world" where
  "SPI1_Deselect w = log_event Deselect w"

definition SPI1_Transmit :: "u8 \<Rightarrow> world \<Rightarrow> u8 \<times> world" where
  "SPI1_Transmit b w =
     (rx w (pos w), w\<lparr>trace := trace w @ [Xfer b (rx w (pos w))], pos := pos w + 1\<rparr>)"

definition SPI1_ReadBuffer :: "u32 \<Rightarrow> nat \<Rightarrow> world \<Rightarrow> world" where
  "SPI1_ReadBuffer buf len w =
     w\<lparr>trace := trace w @ [ReadBuf buf (map (\<lambda>i. rx w (pos w + i)) [0..<len])],
       pos := pos w + len,
       mem := (\<lambda>a. if unat (a - buf) < len then rx w (pos w + unat (a - buf)) else mem w a)\<rparr>"

definition SPI1_SendBuffer :: "u32 \<Rightarrow> nat \<Rightarrow> world \<Rightarrow> world" where
  "SPI1_SendBuffer buf len w =
     w\<lparr>trace := trace w @ [SendBuf buf (map (\<lambda>i. mem w (buf + of_nat i)) [0..<len])],
       pos := pos w + len\<rparr>"

definition TIMER_Delay :: "nat \<Rightarrow> world \<Rightarrow> world" where
  "TIMER_Delay ms w = log_event (Delay ms) w"

text \<open>The macros \<^verbatim>\<open>print\<close> and \<^verbatim>\<open>dprint\<close>, with \<^verbatim>\<open>DEBUG_SD\<close> defined as in the file.\<close>

definition CRLF :: string where
  "CRLF = [char_of (13 :: nat), char_of (10 :: nat)]"

definition print :: "string \<Rightarrow> u8 list \<Rightarrow> world \<Rightarrow> world" where
  "print fmt args w = log_event (Printf fmt args) w"

definition dprint :: "string \<Rightarrow> u8 list \<Rightarrow> world \<Rightarrow> world" where
  "dprint fmt args w = log_event (Printf fmt args) (log_event (Printf ''SD: '' []) w)"

subsection \<open>Command layer\<close>

definition SD_GO_IDLE_STATE :: u8 where "SD_GO_IDLE_STATE = 0"
definition SD_SEND_IF_COND :: u8 where "SD_SEND_IF_COND = 8"
definition SD_STOP_TRANSMISSION :: u8 where "SD_STOP_TRANSMISSION = 12"
definition SD_READ_MULTIPLE_BLOCK :: u8 where "SD_READ_MULTIPLE_BLOCK = 18"
definition SD_WRITE_MULTIPLE_BLOCK :: u8 where "SD_WRITE_MULTIPLE_BLOCK = 25"
definition SD_APP_CMD :: u8 where "SD_APP_CMD = 55"
definition SD_READ_OCR :: u8 where "SD_READ_OCR = 58"
definition SD_ACMD_SEND_OP_COND :: u8 where "SD_ACMD_SEND_OP_COND = 41"
definition SD_IF_COND_CHECK :: u32 where "SD_IF_COND_CHECK = 0xaa"
definition SD_IF_COND_VOLT :: u32 where "SD_IF_COND_VOLT = push_bit 8 1"
definition SD_ACMD41_HCS :: u32 where "SD_ACMD41_HCS = push_bit 30 1"
definition SD_TOKEN_SBR_MBR_SBW :: u8 where "SD_TOKEN_SBR_MBR_SBW = 0xfe"

text \<open>
  \<^verbatim>\<open>static uint8_t SD_SendCommand(uint8_t cmd, uint32_t args)\<close>. The argument of each
  \<^verbatim>\<open>SPI1_Transmit\<close> is converted to a byte, which keeps the low 8 bits.
\<close>

definition SD_SendCommand :: "u8 \<Rightarrow> u32 \<Rightarrow> world \<Rightarrow> u8 \<times> world" where
  "SD_SendCommand cmd args w0 =
     (let w1 = snd (SPI1_Transmit (0x40 OR cmd) w0);
          w2 = snd (SPI1_Transmit (ucast (drop_bit 24 args)) w1);
          w3 = snd (SPI1_Transmit (ucast (drop_bit 16 args)) w2);
          w4 = snd (SPI1_Transmit (ucast (drop_bit 8 args)) w3);
          w5 = snd (SPI1_Transmit (ucast args) w4);
          w6 = (if cmd = SD_GO_IDLE_STATE then snd (SPI1_Transmit 0x95 w5)
                else if cmd = SD_SEND_IF_COND then snd (SPI1_Transmit 0x87 w5)
                else snd (SPI1_Transmit 0xff w5));
          w7 = snd (SPI1_Transmit 0xff w6);
          (ret, w8) = SPI1_Transmit 0xff w7;
          w9 = dprint (''Response to cmd %d is %02x'' @ CRLF) [cmd, ret] w8
      in (ret, w9))"

text \<open>
  \<^verbatim>\<open>static uint8_t SD_GetResponseR3orR7(uint8_t* buf)\<close>, for a buffer that is a local
  array of the caller: the array is passed in and returned updated.
\<close>

definition SD_GetResponseR3orR7 :: "u8 list \<Rightarrow> world \<Rightarrow> u8 \<times> u8 list \<times> world" where
  "SD_GetResponseR3orR7 buf w0 =
     (let (b0, w1) = SPI1_Transmit 0xff w0;
          (b1, w2) = SPI1_Transmit 0xff w1;
          (b2, w3) = SPI1_Transmit 0xff w2;
          (b3, w4) = SPI1_Transmit 0xff w3
      in (0, buf[0 := b0, 1 := b1, 2 := b2, 3 := b3], w4))"

subsection \<open>Initialization\<close>

text \<open>
  \<^verbatim>\<open>void SD_Init(void)\<close> is embedded in four parts, in the order of the source:
  the bring-up up to the first OCR dump, the ACMD41 loop, the capacity read, and their
  composition. The loops are recursive functions of the loop variable \<^verbatim>\<open>int i\<close>.
\<close>

text \<open>\<^verbatim>\<open>for (i = 0; i < 20; i++) { SPI1_Transmit(0xff); }\<close>\<close>

function SD_Init_sync :: "int \<Rightarrow> world \<Rightarrow> world" where
  "SD_Init_sync i w =
     (if i < 20 then SD_Init_sync (i + 1) (snd (SPI1_Transmit 0xff w)) else w)"
  by pat_completeness auto
termination
  by (relation "measure (\<lambda>(i, w). nat (20 - i))") auto

declare SD_Init_sync.simps [simp del]

text \<open>\<^verbatim>\<open>for (i=0; i<4; i++) { print("%02x ", buf[i]); }\<close>\<close>

function print_buf :: "int \<Rightarrow> u8 list \<Rightarrow> world \<Rightarrow> world" where
  "print_buf i buf w =
     (if i < 4 then print_buf (i + 1) buf (print ''%02x '' [buf ! nat i] w) else w)"
  by pat_completeness auto
termination
  by (relation "measure (\<lambda>(i, buf, w). nat (4 - i))") auto

declare print_buf.simps [simp del]

text \<open>
  From \<^verbatim>\<open>SPI1_Init()\<close> to the dump of the first OCR value. The local array
  \<^verbatim>\<open>uint8_t buf[10]\<close> is not initialised by the source and is never read before
  \<open>SD_GetResponseR3orR7\<close> has written it; it starts as ten zero bytes here.
  The part returns the state and the array.
\<close>

definition SD_Init_bringup :: "world \<Rightarrow> u8 list \<times> world" where
  "SD_Init_bringup w0 =
     (let buf0 = replicate 10 (0 :: u8);
          w1 = SPI1_Init w0;
          w2 = SPI1_Select w1;
          w3 = SD_Init_sync 0 w2;
          (resp0, w4) = SD_SendCommand SD_GO_IDLE_STATE 0 w3;
          w5 = (if resp0 \<noteq> 0x01 then dprint (''SD_GO_IDLE_STATE error'' @ CRLF) [] w4 else w4);
          (resp8, w6) = SD_SendCommand SD_SEND_IF_COND (SD_IF_COND_VOLT OR SD_IF_COND_CHECK) w5;
          (r7, buf1, w7) = SD_GetResponseR3orR7 buf0 w6;
          w8 = (if resp8 \<noteq> 0x01 then dprint (''SD_SEND_IF_COND error'' @ CRLF) [] w7 else w7);
          w9 = (if (ucast (buf1 ! 3) :: u32) \<noteq> SD_IF_COND_CHECK
                   \<or> (ucast (buf1 ! 2) :: u32) \<noteq> drop_bit 8 SD_IF_COND_VOLT
                then print CRLF []
                       (print_buf 0 buf1 (dprint (''SD_SEND_IF_COND error'' @ CRLF) [] w8))
                else w8);
          (resp58, w10) = SD_SendCommand SD_READ_OCR 0 w9;
          (r3, buf2, w11) = SD_GetResponseR3orR7 buf1 w10;
          w12 = (if resp58 \<noteq> 0x01 then dprint (''SD_READ_OCR error'' @ CRLF) [] w11 else w11);
          w13 = dprint ''OCR value: '' [] w12;
          w14 = print_buf 0 buf2 w13;
          w15 = print CRLF [] w14
      in (buf2, w15))"

text \<open>
  The loop \<^verbatim>\<open>for (i=0; i<10; i++)\<close> that sends APP_CMD and ACMD41. It ends by
  \<^verbatim>\<open>break\<close> (\<open>Returned\<close>), or in \<^verbatim>\<open>while(1);\<close> (\<open>Halted\<close>).
\<close>

function SD_Init_poll :: "int \<Rightarrow> world \<Rightarrow> unit outcome" where
  "SD_Init_poll i w =
     (if i < 10 then
        (let w1 = snd (SD_SendCommand SD_APP_CMD 0 w);
             resp = fst (SD_SendCommand SD_ACMD_SEND_OP_COND SD_ACMD41_HCS w1);
             w2 = snd (SD_SendCommand SD_ACMD_SEND_OP_COND SD_ACMD41_HCS w1);
             w3 = TIMER_Delay 20 w2
         in if resp = 0x00 then Returned () w3
            else if i = 9 then Halted (dprint (''Failed to initialize SD card'' @ CRLF) [] w3)
            else SD_Init_poll (i + 1) w3)
      else Returned () w)"
  by pat_completeness auto
termination
  by (relation "measure (\<lambda>(i, w). nat (10 - i))") auto

declare SD_Init_poll.simps [simp del]

text \<open>From the second \<^verbatim>\<open>SD_SendCommand(SD_READ_OCR, 0)\<close> to \<^verbatim>\<open>SPI1_Deselect()\<close>.\<close>

definition SD_Init_capacity :: "u8 list \<Rightarrow> world \<Rightarrow> world" where
  "SD_Init_capacity buf w0 =
     (let (resp, w1) = SD_SendCommand SD_READ_OCR 0 w0;
          (r3, buf1, w2) = SD_GetResponseR3orR7 buf w1;
          w3 = (if resp \<noteq> 0x00 then dprint (''SD_READ_OCR error'' @ CRLF) [] w2 else w2);
          w4 = dprint ''OCR value: '' [] w3;
          w5 = print_buf 0 buf1 w4;
          w6 = print CRLF [] w5;
          w7 = (if buf1 ! 0 AND 0x40 \<noteq> 0
                then (dprint (''SDHC card connected'' @ CRLF) [] w6)\<lparr>isSDHC := 1\<rparr>
                else (dprint (''SDSC card connected'' @ CRLF) [] w6)\<lparr>isSDHC := 0\<rparr>)
      in SPI1_Deselect w7)"

definition SD_Init :: "world \<Rightarrow> unit outcome" where
  "SD_Init w0 =
     (let (buf, w1) = SD_Init_bringup w0
      in case SD_Init_poll 0 w1 of
           Returned u w2 \<Rightarrow> Returned () (SD_Init_capacity buf w2)
         | Halted w2 \<Rightarrow> Halted w2
         | OutOfFuel w2 \<Rightarrow> OutOfFuel w2)"

subsection \<open>Block transfer\<close>

text \<open>
  The busy-wait loops of the transfer functions have no bound in the source. Each takes
  \<open>fuel\<close>, the number of times it may jump back to its head: the first pass always
  runs, and a loop that wants to go round once more than the fuel allows ends the call
  with \<open>OutOfFuel\<close>. The fuel of a call bounds each of its loops apart. A call returns
  when some fuel lets it return; it never returns when no fuel does.
\<close>

text \<open>\<^verbatim>\<open>while (SPI1_Transmit(0xff) != SD_TOKEN_SBR_MBR_SBW);\<close>\<close>

fun SD_wait_token :: "nat \<Rightarrow> world \<Rightarrow> unit outcome" where
  "SD_wait_token fuel w =
     (case SPI1_Transmit 0xff w of
        (r, w1) \<Rightarrow>
          if r \<noteq> SD_TOKEN_SBR_MBR_SBW
          then (case fuel of 0 \<Rightarrow> OutOfFuel w1 | Suc n \<Rightarrow> SD_wait_token n w1)
          else Returned () w1)"

declare SD_wait_token.simps [simp del]

text \<open>\<^verbatim>\<open>while(!SPI1_Transmit(0xff));\<close>, the last loop of both transfer functions.\<close>

fun SD_wait_busy :: "nat \<Rightarrow> world \<Rightarrow> unit outcome" where
  "SD_wait_busy fuel w =
     (case SPI1_Transmit 0xff w of
        (r, w1) \<Rightarrow>
          if r = 0
          then (case fuel of 0 \<Rightarrow> OutOfFuel w1 | Suc n \<Rightarrow> SD_wait_busy n w1)
          else Returned () w1)"

declare SD_wait_busy.simps [simp del]

text \<open>The loop \<^verbatim>\<open>while (count) { ... }\<close> of \<open>SD_ReadSectors\<close>.\<close>

function SD_ReadSectors_blocks :: "nat \<Rightarrow> u32 \<Rightarrow> u32 \<Rightarrow> world \<Rightarrow> unit outcome" where
  "SD_ReadSectors_blocks fuel buf count w =
     (if count \<noteq> 0 then
        (case SD_wait_token fuel w of
           Returned u w1 \<Rightarrow>
             (let w2 = SPI1_ReadBuffer buf 512 w1;
                  w3 = snd (SPI1_Transmit 0xff w2);
                  w4 = snd (SPI1_Transmit 0xff w3)
              in SD_ReadSectors_blocks fuel (buf + 512) (count - 1) w4)
         | Halted w1 \<Rightarrow> Halted w1
         | OutOfFuel w1 \<Rightarrow> OutOfFuel w1)
      else Returned () w)"
  by pat_completeness auto
termination
  by (relation "measure (\<lambda>(fuel, buf, count, w). unat count)") (auto simp: measure_unat)

declare SD_ReadSectors_blocks.simps [simp del]

text \<open>
  \<^verbatim>\<open>uint8_t SD_ReadSectors(uint8_t* buf, uint32_t sector, uint32_t count)\<close>.
  \<^verbatim>\<open>sector *= 512\<close> is a multiplication of \<^verbatim>\<open>uint32_t\<close>: it wraps at \<open>2^32\<close>.
\<close>

definition SD_ReadSectors :: "nat \<Rightarrow> u32 \<Rightarrow> u32 \<Rightarrow> u32 \<Rightarrow> world \<Rightarrow> u8 outcome" where
  "SD_ReadSectors fuel buf sector count w0 =
     (let sector1 = (if isSDHC w0 = 0 then sector * 512 else sector);
          w1 = SPI1_Select w0;
          (resp, w2) = SD_SendCommand SD_READ_MULTIPLE_BLOCK sector1 w1;
          w3 = (if resp \<noteq> 0x00
                then dprint (''SD_READ_MULTIPLE_BLOCK error'' @ CRLF) [] w2 else w2)
      in case SD_ReadSectors_blocks fuel buf count w3 of
           Returned u w4 \<Rightarrow>
             (let w5 = snd (SD_SendCommand SD_STOP_TRANSMISSION 0 w4)
              in case SD_wait_busy fuel w5 of
                   Returned u w6 \<Rightarrow> Returned 0 (SPI1_Deselect w6)
                 | Halted w6 \<Rightarrow> Halted w6
                 | OutOfFuel w6 \<Rightarrow> OutOfFuel w6)
         | Halted w4 \<Rightarrow> Halted w4
         | OutOfFuel w4 \<Rightarrow> OutOfFuel w4)"

text \<open>
  \<^verbatim>\<open>do { status = SD_SendCommand(SD_WRITE_MULTIPLE_BLOCK, sector); TIMER_Delay(5); }
  while (status != 0);\<close>
\<close>

fun SD_WriteSectors_cmd :: "nat \<Rightarrow> u32 \<Rightarrow> world \<Rightarrow> unit outcome" where
  "SD_WriteSectors_cmd fuel sector w =
     (case SD_SendCommand SD_WRITE_MULTIPLE_BLOCK sector w of
        (status, w1) \<Rightarrow>
          (let w2 = TIMER_Delay 5 w1
           in if status \<noteq> 0
              then (case fuel of 0 \<Rightarrow> OutOfFuel w2 | Suc n \<Rightarrow> SD_WriteSectors_cmd n sector w2)
              else Returned () w2))"

declare SD_WriteSectors_cmd.simps [simp del]

text \<open>The loop \<^verbatim>\<open>while (count) { ... }\<close> of \<open>SD_WriteSectors\<close>.\<close>

function SD_WriteSectors_blocks :: "u32 \<Rightarrow> u32 \<Rightarrow> world \<Rightarrow> world" where
  "SD_WriteSectors_blocks buf count w =
     (if count \<noteq> 0 then
        (let w1 = snd (SPI1_Transmit 0xfc w);
             w2 = SPI1_SendBuffer buf 512 w1;
             w3 = snd (SPI1_Transmit 0xff w2);
             w4 = snd (SPI1_Transmit 0xff w3)
         in SD_WriteSectors_blocks (buf + 512) (count - 1) w4)
      else w)"
  by pat_completeness auto
termination
  by (relation "measure (\<lambda>(buf, count, w). unat count)") (auto simp: measure_unat)

declare SD_WriteSectors_blocks.simps [simp del]

text \<open>\<^verbatim>\<open>uint8_t SD_WriteSectors(uint8_t* buf, uint32_t sector, uint32_t count)\<close>\<close>

definition SD_WriteSectors :: "nat \<Rightarrow> u32 \<Rightarrow> u32 \<Rightarrow> u32 \<Rightarrow> world \<Rightarrow> u8 outcome" where
  "SD_WriteSectors fuel buf sector count w0 =
     (let sector1 = sector * 512;
          w1 = SPI1_Select w0
      in case SD_WriteSectors_cmd fuel sector1 w1 of
           Returned u w2 \<Rightarrow>
             (let w3 = snd (SPI1_Transmit 0xff w2);
                  w4 = SD_WriteSectors_blocks buf count w3;
                  w5 = snd (SPI1_Transmit 0xfd w4);
                  w6 = snd (SPI1_Transmit 0xff w5)
              in case SD_wait_busy fuel w6 of
                   Returned u w7 \<Rightarrow> Returned 0 (SPI1_Deselect w7)
                 | Halted w7 \<Rightarrow> Halted w7
                 | OutOfFuel w7 \<Rightarrow> OutOfFuel w7)
         | Halted w2 \<Rightarrow> Halted w2
         | OutOfFuel w2 \<Rightarrow> OutOfFuel w2)"

subsection \<open>Expected wire images and simulated cards\<close>

text \<open>
  The events of one pass of the ACMD41 loop that starts when \<open>p\<close> bytes have been
  clocked, on a card that answers \<open>r\<close>: APP_CMD, ACMD41 with the HCS bit, the delay.
\<close>

definition poll_events :: "(nat \<Rightarrow> u8) \<Rightarrow> nat \<Rightarrow> event list" where
  "poll_events r p =
     [Xfer 0x77 (r p), Xfer 0 (r (p + 1)), Xfer 0 (r (p + 2)), Xfer 0 (r (p + 3)),
      Xfer 0 (r (p + 4)), Xfer 0xff (r (p + 5)), Xfer 0xff (r (p + 6)), Xfer 0xff (r (p + 7)),
      Printf ''SD: '' [],
      Printf (''Response to cmd %d is %02x'' @ CRLF) [55, r (p + 7)],
      Xfer 0x69 (r (p + 8)), Xfer 0x40 (r (p + 9)), Xfer 0 (r (p + 10)), Xfer 0 (r (p + 11)),
      Xfer 0 (r (p + 12)), Xfer 0xff (r (p + 13)), Xfer 0xff (r (p + 14)),
      Xfer 0xff (r (p + 15)),
      Printf ''SD: '' [],
      Printf (''Response to cmd %d is %02x'' @ CRLF) [41, r (p + 15)],
      Delay 20]"

text \<open>The events of the first \<open>n\<close> passes of the loop, the first starting at \<open>p\<close>.\<close>

definition poll_passes :: "(nat \<Rightarrow> u8) \<Rightarrow> nat \<Rightarrow> nat \<Rightarrow> event list" where
  "poll_passes r p n = concat (map (\<lambda>k. poll_events r (p + 16 * k)) [0..<n])"

text \<open>
  The bytes \<open>SD_Init\<close> puts on the link, in order: during the bring-up (20 fillers, CMD0,
  CMD8 and the four bytes of its R7, CMD58 and the four bytes of its R3), during one pass
  of the ACMD41 loop (CMD55, ACMD41), and during the capacity read (CMD58 and the four
  bytes of its R3). Each command is its frame of six bytes and two fillers.
\<close>

definition bringup_bytes :: "u8 list" where
  "bringup_bytes = replicate 20 0xFF @
     [0x40, 0, 0, 0, 0, 0x95, 0xFF, 0xFF] @
     [0x48, 0, 0, 1, 0xAA, 0x87, 0xFF, 0xFF] @ [0xFF, 0xFF, 0xFF, 0xFF] @
     [0x7A, 0, 0, 0, 0, 0xFF, 0xFF, 0xFF] @ [0xFF, 0xFF, 0xFF, 0xFF]"

definition poll_bytes :: "u8 list" where
  "poll_bytes = [0x77, 0, 0, 0, 0, 0xFF, 0xFF, 0xFF] @ [0x69, 0x40, 0, 0, 0, 0xFF, 0xFF, 0xFF]"

definition capacity_bytes :: "u8 list" where
  "capacity_bytes = [0x7A, 0, 0, 0, 0, 0xFF, 0xFF, 0xFF] @ [0xFF, 0xFF, 0xFF, 0xFF]"

text \<open>
  A simulated card for \<open>SD_Init\<close> run from power-on: it answers \<open>0x01\<close> (idle, no error)
  to everything, except that the status of the \<open>N\<close>-th ACMD41 is \<open>0x00\<close> and the first
  OCR byte read after \<open>N\<close> passes of the loop is \<open>ocr0\<close>. Before the loop 52 bytes are
  clocked, each pass clocks 16, the status of ACMD41 is the last byte of its pass, and
  the first OCR byte follows the eight bytes of the second CMD58.
\<close>

definition sim_card :: "nat \<Rightarrow> u8 \<Rightarrow> world" where
  "sim_card N ocr0 =
     \<lparr>trace = [],
      rx = (\<lambda>n. if n = 52 + 16 * (N - 1) + 15 then 0
                 else if n = 52 + 16 * N + 8 then ocr0 else 1),
      pos = 0, mem = (\<lambda>a. 0), isSDHC = 0\<rparr>"

text \<open>
  A card that answers the bytes \<open>r\<close>, seen from power-on with nothing in the caller's
  memory and the flag at its initial value.
\<close>

definition card_of :: "(nat \<Rightarrow> u8) \<Rightarrow> world" where
  "card_of r = \<lparr>trace = [], rx = r, pos = 0, mem = (\<lambda>a. 0), isSDHC = 0\<rparr>"

text \<open>
  Three cards for the transfer functions: one that answers \<open>0x01\<close> to everything, so
  that no command ever gets the status 0; one that answers 4 (illegal command) except
  for a 0 as the status of the third command; and one that answers the data token
  \<open>0xFE\<close> except for the status 4 to the first command and the status 0 to the second.
\<close>

definition idle_card :: world where
  "idle_card = card_of (\<lambda>n. 1)"

definition retry_card :: world where
  "retry_card = card_of (\<lambda>n. if n = 23 then 0 else 4)"

definition error_card :: world where
  "error_card = card_of (\<lambda>n. if n = 7 then 4 else if n = 15 then 0 else 0xFE)"

text \<open>
  The events of one \<open>SD_SendCommand cmd args\<close> that starts when \<open>p\<close> bytes have been
  clocked, on a card that answers \<open>r\<close>; and the events of the first \<open>n\<close> passes of
  the loop that sends WRITE_MULTIPLE_BLOCK, each pass being the command and the delay.
\<close>

definition command_events :: "u8 \<Rightarrow> u32 \<Rightarrow> (nat \<Rightarrow> u8) \<Rightarrow> nat \<Rightarrow> event list" where
  "command_events cmd args r p =
     [Xfer (0x40 OR cmd) (r p),
      Xfer (ucast (drop_bit 24 args)) (r (p + 1)),
      Xfer (ucast (drop_bit 16 args)) (r (p + 2)),
      Xfer (ucast (drop_bit 8 args)) (r (p + 3)),
      Xfer (ucast args) (r (p + 4)),
      Xfer (if cmd = 0 then 0x95 else if cmd = 8 then 0x87 else 0xff) (r (p + 5)),
      Xfer 0xff (r (p + 6)),
      Xfer 0xff (r (p + 7)),
      Printf ''SD: '' [],
      Printf (''Response to cmd %d is %02x'' @ CRLF) [cmd, r (p + 7)]]"

definition write_attempts :: "u32 \<Rightarrow> (nat \<Rightarrow> u8) \<Rightarrow> nat \<Rightarrow> nat \<Rightarrow> event list" where
  "write_attempts sector r p n =
     concat (map (\<lambda>k. command_events SD_WRITE_MULTIPLE_BLOCK sector r (p + 8 * k) @ [Delay 5])
       [0..<n])"

text \<open>
  Two states are related by \<open>quiet\<close> when the second continues the trace of the first
  without a call of \<open>TIMER_Delay(5)\<close> and has the same card and the same flag.
  \<open>with_flag f\<close> sets the flag of the state an outcome carries.
\<close>

definition quiet :: "world \<Rightarrow> world \<Rightarrow> bool" where
  "quiet w w' \<longleftrightarrow>
     (\<exists>es. trace w' = trace w @ es \<and> count_list es (Delay 5) = 0)
     \<and> isSDHC w' = isSDHC w \<and> rx w' = rx w"

fun with_flag :: "u8 \<Rightarrow> 'a outcome \<Rightarrow> 'a outcome" where
  "with_flag f (Returned v w) = Returned v (w\<lparr>isSDHC := f\<rparr>)"
| "with_flag f (Halted w) = Halted (w\<lparr>isSDHC := f\<rparr>)"
| "with_flag f (OutOfFuel w) = OutOfFuel (w\<lparr>isSDHC := f\<rparr>)"

subsection \<open>Facts about the devices and the command layer\<close>

lemma events_since_append [simp]:
  "trace w' = trace w @ es \<Longrightarrow> events_since w w' = es"
  by (simp add: events_since_def)

lemma exchanges_append [simp]: "exchanges (es @ fs) = exchanges es @ exchanges fs"
  by (induction es rule: exchanges.induct) simp_all

lemma add_numeral_assoc [simp]: "(a :: nat) + numeral m + numeral n = a + numeral (m + n)"
  by simp

lemma Suc_add_numeral [simp]: "Suc (a + numeral m) = a + numeral (m + Num.One)"
  by simp

lemma log_event_simps [simp]:
  "trace (log_event e w) = trace w @ [e]"
  "rx (log_event e w) = rx w"
  "pos (log_event e w) = pos w"
  "mem (log_event e w) = mem w"
  "isSDHC (log_event e w) = isSDHC w"
  by (simp_all add: log_event_def)

lemma SPI1_Transmit_simps [simp]:
  "fst (SPI1_Transmit b w) = rx w (pos w)"
  "trace (snd (SPI1_Transmit b w)) = trace w @ [Xfer b (rx w (pos w))]"
  "rx (snd (SPI1_Transmit b w)) = rx w"
  "pos (snd (SPI1_Transmit b w)) = pos w + 1"
  "mem (snd (SPI1_Transmit b w)) = mem w"
  "isSDHC (snd (SPI1_Transmit b w)) = isSDHC w"
  by (simp_all add: SPI1_Transmit_def)

lemma dprint_simps [simp]:
  "trace (dprint s a w) = trace w @ [Printf ''SD: '' [], Printf s a]"
  "rx (dprint s a w) = rx w"
  "pos (dprint s a w) = pos w"
  "mem (dprint s a w) = mem w"
  "isSDHC (dprint s a w) = isSDHC w"
  by (simp_all add: dprint_def)

lemma SD_SendCommand_pos [simp]: "pos (snd (SD_SendCommand cmd args w)) = pos w + 8"
  by (simp add: SD_SendCommand_def Let_def split_beta)

lemma SD_SendCommand_rx [simp]: "rx (snd (SD_SendCommand cmd args w)) = rx w"
  by (simp add: SD_SendCommand_def Let_def split_beta)

lemma SD_SendCommand_isSDHC [simp]: "isSDHC (snd (SD_SendCommand cmd args w)) = isSDHC w"
  by (simp add: SD_SendCommand_def Let_def split_beta)

lemma SD_SendCommand_mem [simp]: "mem (snd (SD_SendCommand cmd args w)) = mem w"
  by (simp add: SD_SendCommand_def Let_def split_beta)

lemma SD_SendCommand_ret [simp]: "fst (SD_SendCommand cmd args w) = rx w (pos w + 7)"
  by (simp add: SD_SendCommand_def Let_def split_beta eval_nat_numeral)

lemma SD_SendCommand_trace:
  "trace (snd (SD_SendCommand cmd args w)) = trace w @
     [Xfer (0x40 OR cmd) (rx w (pos w)),
      Xfer (ucast (drop_bit 24 args)) (rx w (pos w + 1)),
      Xfer (ucast (drop_bit 16 args)) (rx w (pos w + 2)),
      Xfer (ucast (drop_bit 8 args)) (rx w (pos w + 3)),
      Xfer (ucast args) (rx w (pos w + 4)),
      Xfer (if cmd = 0 then 0x95 else if cmd = 8 then 0x87 else 0xff) (rx w (pos w + 5)),
      Xfer 0xff (rx w (pos w + 6)),
      Xfer 0xff (rx w (pos w + 7)),
      Printf ''SD: '' [],
      Printf (''Response to cmd %d is %02x'' @ CRLF) [cmd, rx w (pos w + 7)]]"
  by (simp add: SD_SendCommand_def SD_GO_IDLE_STATE_def SD_SEND_IF_COND_def Let_def split_beta
      eval_nat_numeral)

lemma print_simps [simp]:
  "trace (print s a w) = trace w @ [Printf s a]"
  "rx (print s a w) = rx w"
  "pos (print s a w) = pos w"
  "mem (print s a w) = mem w"
  "isSDHC (print s a w) = isSDHC w"
  by (simp_all add: print_def)

lemma device_simps [simp]:
  "trace (SPI1_Init w) = trace w @ [SpiInit]"
  "trace (SPI1_Select w) = trace w @ [Select]"
  "trace (SPI1_Deselect w) = trace w @ [Deselect]"
  "trace (TIMER_Delay ms w) = trace w @ [Delay ms]"
  "rx (SPI1_Init w) = rx w" "rx (SPI1_Select w) = rx w"
  "rx (SPI1_Deselect w) = rx w" "rx (TIMER_Delay ms w) = rx w"
  "pos (SPI1_Init w) = pos w" "pos (SPI1_Select w) = pos w"
  "pos (SPI1_Deselect w) = pos w" "pos (TIMER_Delay ms w) = pos w"
  "isSDHC (SPI1_Init w) = isSDHC w" "isSDHC (SPI1_Select w) = isSDHC w"
  "isSDHC (SPI1_Deselect w) = isSDHC w" "isSDHC (TIMER_Delay ms w) = isSDHC w"
  by (simp_all add: SPI1_Init_def SPI1_Select_def SPI1_Deselect_def TIMER_Delay_def)

lemma if_dprint_simps [simp]:
  "trace (if c then dprint s a w else w) =
     trace w @ (if c then [Printf ''SD: '' [], Printf s a] else [])"
  "rx (if c then dprint s a w else w) = rx w"
  "pos (if c then dprint s a w else w) = pos w"
  "isSDHC (if c then dprint s a w else w) = isSDHC w"
  by simp_all

lemma print_buf_simps [simp]:
  "trace (print_buf 0 buf w) = trace w @
     [Printf ''%02x '' [buf ! 0], Printf ''%02x '' [buf ! 1],
      Printf ''%02x '' [buf ! 2], Printf ''%02x '' [buf ! 3]]"
  "rx (print_buf 0 buf w) = rx w"
  "pos (print_buf 0 buf w) = pos w"
  "isSDHC (print_buf 0 buf w) = isSDHC w"
  by (simp_all add: print_buf.simps [of 0] print_buf.simps [of 1] print_buf.simps [of 2]
      print_buf.simps [of 3] print_buf.simps [of 4] eval_nat_numeral)

lemma SD_Init_sync_frame:
  "rx (SD_Init_sync i w) = rx w \<and> isSDHC (SD_Init_sync i w) = isSDHC w
   \<and> pos (SD_Init_sync i w) = pos w + nat (20 - i)
   \<and> trace (SD_Init_sync i w) =
       trace w @ map (\<lambda>k. Xfer 0xff (rx w (pos w + k))) [0..<nat (20 - i)]"
proof (induction i w rule: SD_Init_sync.induct)
  case (1 i w)
  show ?case
  proof (cases "i < 20")
    case True
    then have n: "nat (20 - i) = Suc (nat (20 - (i + 1)))" by simp
    show ?thesis
      using True 1 [OF True]
      by (subst (1 2 3 4) SD_Init_sync.simps) (simp add: n upt_rec [of 0] map_Suc_upt [symmetric] del: upt_Suc)
  next
    case False
    then show ?thesis by (simp add: SD_Init_sync.simps)
  qed
qed

lemma GetResponse_simps [simp]:
  "trace (snd (snd (SD_GetResponseR3orR7 buf w))) = trace w @
     [Xfer 0xff (rx w (pos w)), Xfer 0xff (rx w (pos w + 1)),
      Xfer 0xff (rx w (pos w + 2)), Xfer 0xff (rx w (pos w + 3))]"
  "rx (snd (snd (SD_GetResponseR3orR7 buf w))) = rx w"
  "pos (snd (snd (SD_GetResponseR3orR7 buf w))) = pos w + 4"
  "isSDHC (snd (snd (SD_GetResponseR3orR7 buf w))) = isSDHC w"
  "fst (snd (SD_GetResponseR3orR7 buf w)) =
     buf[0 := rx w (pos w), 1 := rx w (pos w + 1), 2 := rx w (pos w + 2), 3 := rx w (pos w + 3)]"
  by (simp_all add: SD_GetResponseR3orR7_def Let_def split_beta eval_nat_numeral)


lemma bringup_frame:
  "rx (snd (SD_Init_bringup w)) = rx w"
  "pos (snd (SD_Init_bringup w)) = pos w + 52"
  "isSDHC (snd (SD_Init_bringup w)) = isSDHC w"
  by (simp_all add: SD_Init_bringup_def Let_def split_beta SD_Init_sync_frame)


lemma bringup_trace:
  "\<exists>es. trace (snd (SD_Init_bringup w)) = trace w @ [SpiInit, Select] @
      map (\<lambda>k. Xfer 0xff (rx w (pos w + k))) [0..<20] @
      [Xfer 0x40 (rx w (pos w + 20)), Xfer 0 (rx w (pos w + 21)), Xfer 0 (rx w (pos w + 22)),
       Xfer 0 (rx w (pos w + 23)), Xfer 0 (rx w (pos w + 24)), Xfer 0x95 (rx w (pos w + 25))] @ es
    \<and> count_list es (Delay 20) = 0
    \<and> map fst (exchanges es) = [0xFF, 0xFF] @ [0x48, 0, 0, 1, 0xAA, 0x87, 0xFF, 0xFF] @
         [0xFF, 0xFF, 0xFF, 0xFF] @ [0x7A, 0, 0, 0, 0, 0xFF, 0xFF, 0xFF] @ [0xFF, 0xFF, 0xFF, 0xFF]"
  by (simp add: SD_Init_bringup_def Let_def split_beta SD_Init_sync_frame SD_SendCommand_trace
     SD_GO_IDLE_STATE_def SD_SEND_IF_COND_def SD_READ_OCR_def SD_IF_COND_VOLT_def SD_IF_COND_CHECK_def)

lemma bringup_buf: "length (fst (SD_Init_bringup w)) = 10"
  by (simp add: SD_Init_bringup_def Let_def split_beta)

lemma poll_step:
  "trace (TIMER_Delay 20 (snd (SD_SendCommand SD_ACMD_SEND_OP_COND SD_ACMD41_HCS
      (snd (SD_SendCommand SD_APP_CMD 0 w))))) = trace w @ poll_events (rx w) (pos w)"
  by (simp add: SD_SendCommand_trace poll_events_def SD_ACMD_SEND_OP_COND_def SD_APP_CMD_def
      SD_ACMD41_HCS_def)

lemma poll_events_facts [simp]:
  "count_list (poll_events r p) (Delay 20) = 1"
  "map fst (exchanges (poll_events r p)) =
     [0x77, 0, 0, 0, 0, 0xFF, 0xFF, 0xFF, 0x69, 0x40, 0, 0, 0, 0xFF, 0xFF, 0xFF]"
  by (simp_all add: poll_events_def)

lemma poll_passes_0 [simp]: "poll_passes r p 0 = []"
  by (simp add: poll_passes_def)

lemma poll_passes_Suc:
  "poll_passes r p (Suc n) = poll_events r p @ poll_passes r (p + 16) n"
proof -
  have "[0..<Suc n] = 0 # map Suc [0..<n]"
    by (simp add: upt_conv_Cons map_Suc_upt del: upt_Suc)
  then show ?thesis
    by (simp add: poll_passes_def comp_def add.assoc del: upt_Suc)
qed

lemma poll_passes_facts [simp]:
  "count_list (poll_passes r p n) (Delay 20) = n"
  "map fst (exchanges (poll_passes r p n)) = concat (replicate n poll_bytes)"
  by (induction n arbitrary: p) (simp_all add: poll_passes_Suc poll_bytes_def)

lemma poll_returns:
  assumes "0 \<le> i" and "i + int n < 10"
    and "\<forall>j<n. rx w (pos w + 16 * j + 15) \<noteq> 0"
    and "rx w (pos w + 16 * n + 15) = 0"
  shows "\<exists>w'. SD_Init_poll i w = Returned () w'
      \<and> trace w' = trace w @ poll_passes (rx w) (pos w) (Suc n)
      \<and> rx w' = rx w \<and> pos w' = pos w + 16 * Suc n \<and> isSDHC w' = isSDHC w"
  using assms
proof (induction n arbitrary: i w)
  case 0
  let ?w3 = "TIMER_Delay 20 (snd (SD_SendCommand SD_ACMD_SEND_OP_COND SD_ACMD41_HCS
      (snd (SD_SendCommand SD_APP_CMD 0 w))))"
  have unfold: "SD_Init_poll i w = Returned () ?w3"
    using 0 by (subst SD_Init_poll.simps) (simp add: Let_def)
  show ?case
  proof (intro exI conjI)
    show "SD_Init_poll i w = Returned () ?w3" by (rule unfold)
    show "trace ?w3 = trace w @ poll_passes (rx w) (pos w) (Suc 0)"
      by (simp only: poll_step poll_passes_Suc poll_passes_0 append_Nil2)
  qed simp_all
next
  case (Suc n)
  let ?w3 = "TIMER_Delay 20 (snd (SD_SendCommand SD_ACMD_SEND_OP_COND SD_ACMD41_HCS
      (snd (SD_SendCommand SD_APP_CMD 0 w))))"
  have first: "rx w (pos w + 15) \<noteq> 0"
    using Suc.prems(3) [rule_format, of 0] by simp
  have unfold: "SD_Init_poll i w = SD_Init_poll (i + 1) ?w3"
    using Suc.prems(1,2) first by (subst SD_Init_poll.simps) (simp add: Let_def)
  have a: "0 \<le> i + 1" "i + 1 + int n < 10"
    using Suc.prems(1,2) by simp_all
  have b: "\<forall>j<n. rx ?w3 (pos ?w3 + 16 * j + 15) \<noteq> 0"
  proof (intro allI impI)
    fix j assume "j < n"
    then have "rx w (pos w + 16 * Suc j + 15) \<noteq> 0"
      using Suc.prems(3) [rule_format, of "Suc j"] by simp
    then show "rx ?w3 (pos ?w3 + 16 * j + 15) \<noteq> 0"
      by simp
  qed
  have c: "rx ?w3 (pos ?w3 + 16 * n + 15) = 0"
    using Suc.prems(4) by simp
  from Suc.IH [OF a b c] obtain w' where
    h: "SD_Init_poll (i + 1) ?w3 = Returned () w'"
      "trace w' = trace ?w3 @ poll_passes (rx ?w3) (pos ?w3) (Suc n)"
      "rx w' = rx ?w3" "pos w' = pos ?w3 + 16 * Suc n" "isSDHC w' = isSDHC ?w3"
    by blast
  have p: "pos ?w3 = pos w + 16" "rx ?w3 = rx w" by simp_all
  show ?case
  proof (intro exI conjI)
    show "SD_Init_poll i w = Returned () w'" using unfold h(1) by simp
    show "trace w' = trace w @ poll_passes (rx w) (pos w) (Suc (Suc n))"
      by (simp only: h(2) p poll_step poll_passes_Suc [of _ _ "Suc n"] append_assoc)
    show "rx w' = rx w" using h(3) by simp
    show "pos w' = pos w + 16 * Suc (Suc n)" using h(4) by simp
    show "isSDHC w' = isSDHC w" using h(5) by simp
  qed
qed

lemma argument_bytes:
  "push_bit 24 (ucast (ucast (drop_bit 24 args) :: u8)) OR
   push_bit 16 (ucast (ucast (drop_bit 16 args) :: u8)) OR
   push_bit 8 (ucast (ucast (drop_bit 8 args) :: u8)) OR
   ucast (ucast args :: u8) = (args :: u32)"
proof (rule bit_word_eqI)
  fix n :: nat
  assume n: "n < LENGTH(32)"
  have "n < 8 \<or> (8 \<le> n \<and> n < 16) \<or> (16 \<le> n \<and> n < 24) \<or> 24 \<le> n"
    by linarith
  then show "bit (push_bit 24 (ucast (ucast (drop_bit 24 args) :: u8)) OR
      push_bit 16 (ucast (ucast (drop_bit 16 args) :: u8)) OR
      push_bit 8 (ucast (ucast (drop_bit 8 args) :: u8)) OR
      (ucast (ucast args :: u8) :: u32)) n = bit args n"
    using n by (auto simp add: bit_simps)
qed

subsection \<open>Facts about initialization\<close>

lemma poll_halts:
  assumes "i = 9 - int n" and "n \<le> 9"
    and "\<forall>j\<le>n. rx w (pos w + 16 * j + 15) \<noteq> 0"
  shows "\<exists>w'. SD_Init_poll i w = Halted w'
      \<and> trace w' = trace w @ poll_passes (rx w) (pos w) (Suc n) @
          [Printf ''SD: '' [], Printf (''Failed to initialize SD card'' @ CRLF) []]
      \<and> isSDHC w' = isSDHC w"
  using assms
proof (induction n arbitrary: i w)
  case 0
  let ?w3 = "TIMER_Delay 20 (snd (SD_SendCommand SD_ACMD_SEND_OP_COND SD_ACMD41_HCS
      (snd (SD_SendCommand SD_APP_CMD 0 w))))"
  let ?w4 = "dprint (''Failed to initialize SD card'' @ CRLF) [] ?w3"
  have unfold: "SD_Init_poll i w = Halted ?w4"
    using 0 by (subst SD_Init_poll.simps) (simp add: Let_def)
  show ?case
  proof (intro exI conjI)
    show "SD_Init_poll i w = Halted ?w4" by (rule unfold)
    show "trace ?w4 = trace w @ poll_passes (rx w) (pos w) (Suc 0) @
        [Printf ''SD: '' [], Printf (''Failed to initialize SD card'' @ CRLF) []]"
      by (simp only: dprint_simps poll_step poll_passes_Suc poll_passes_0 append_Nil2
          append_assoc)
  qed simp_all
next
  case (Suc n)
  let ?w3 = "TIMER_Delay 20 (snd (SD_SendCommand SD_ACMD_SEND_OP_COND SD_ACMD41_HCS
      (snd (SD_SendCommand SD_APP_CMD 0 w))))"
  have first: "rx w (pos w + 15) \<noteq> 0"
    using Suc.prems(3) [rule_format, of 0] by simp
  have unfold: "SD_Init_poll i w = SD_Init_poll (i + 1) ?w3"
    using Suc.prems(1,2) first by (subst SD_Init_poll.simps) (simp add: Let_def)
  have a: "i + 1 = 9 - int n" "n \<le> 9"
    using Suc.prems(1,2) by simp_all
  have b: "\<forall>j\<le>n. rx ?w3 (pos ?w3 + 16 * j + 15) \<noteq> 0"
  proof (intro allI impI)
    fix j assume "j \<le> n"
    then have "rx w (pos w + 16 * Suc j + 15) \<noteq> 0"
      using Suc.prems(3) [rule_format, of "Suc j"] by simp
    then show "rx ?w3 (pos ?w3 + 16 * j + 15) \<noteq> 0"
      by simp
  qed
  from Suc.IH [OF a b] obtain w' where
    h: "SD_Init_poll (i + 1) ?w3 = Halted w'"
      "trace w' = trace ?w3 @ poll_passes (rx ?w3) (pos ?w3) (Suc n) @
          [Printf ''SD: '' [], Printf (''Failed to initialize SD card'' @ CRLF) []]"
      "isSDHC w' = isSDHC ?w3"
    by blast
  have p: "pos ?w3 = pos w + 16" "rx ?w3 = rx w" by simp_all
  show ?case
  proof (intro exI conjI)
    show "SD_Init_poll i w = Halted w'" using unfold h(1) by simp
    show "trace w' = trace w @ poll_passes (rx w) (pos w) (Suc (Suc n)) @
          [Printf ''SD: '' [], Printf (''Failed to initialize SD card'' @ CRLF) []]"
      by (simp only: h(2) p poll_step poll_passes_Suc [of _ _ "Suc n"] append_assoc)
    show "isSDHC w' = isSDHC w" using h(3) by simp
  qed
qed

lemma poll_extends: "\<exists>es. trace (state_of (SD_Init_poll i w)) = trace w @ es"
proof (induction i w rule: SD_Init_poll.induct)
  case (1 i w)
  let ?w3 = "TIMER_Delay 20 (snd (SD_SendCommand SD_ACMD_SEND_OP_COND SD_ACMD41_HCS
      (snd (SD_SendCommand SD_APP_CMD 0 w))))"
  let ?resp = "fst (SD_SendCommand SD_ACMD_SEND_OP_COND SD_ACMD41_HCS
      (snd (SD_SendCommand SD_APP_CMD 0 w)))"
  consider "\<not> i < 10" | "i < 10" "?resp = 0" | "i < 10" "?resp \<noteq> 0" "i = 9"
    | "i < 10" "?resp \<noteq> 0" "i \<noteq> 9" by blast
  then show ?case
  proof cases
    case 1
    then show ?thesis by (subst SD_Init_poll.simps) simp
  next
    case 2
    then have "SD_Init_poll i w = Returned () ?w3"
      by (subst SD_Init_poll.simps) (simp add: Let_def)
    then show ?thesis by (simp only: state_of.simps poll_step) blast
  next
    case 3
    then have "SD_Init_poll i w =
        Halted (dprint (''Failed to initialize SD card'' @ CRLF) [] ?w3)"
      by (subst SD_Init_poll.simps) (simp add: Let_def)
    then show ?thesis by (simp only: state_of.simps dprint_simps poll_step append_assoc) blast
  next
    case 4
    then have u: "SD_Init_poll i w = SD_Init_poll (i + 1) ?w3"
      by (subst SD_Init_poll.simps) (simp add: Let_def)
    from 1 [OF 4(1) refl refl refl refl 4(2) 4(3)]
    obtain es where "trace (state_of (SD_Init_poll (i + 1) ?w3)) = trace ?w3 @ es"
      by blast
    then show ?thesis by (simp only: u poll_step append_assoc) blast
  qed
qed

lemma capacity_frame:
  "0 < length buf \<Longrightarrow>
   isSDHC (SD_Init_capacity buf w) = (if rx w (pos w + 8) AND 0x40 \<noteq> 0 then 1 else 0)"
  by (simp add: SD_Init_capacity_def Let_def split_beta)

lemma capacity_trace:
  "\<exists>es. trace (SD_Init_capacity buf w) = trace w @ es
    \<and> count_list es (Delay 20) = 0
    \<and> exchanges es =
        [(0x7A, rx w (pos w)), (0, rx w (pos w + 1)), (0, rx w (pos w + 2)),
         (0, rx w (pos w + 3)), (0, rx w (pos w + 4)), (0xFF, rx w (pos w + 5)),
         (0xFF, rx w (pos w + 6)), (0xFF, rx w (pos w + 7)), (0xFF, rx w (pos w + 8)),
         (0xFF, rx w (pos w + 9)), (0xFF, rx w (pos w + 10)), (0xFF, rx w (pos w + 11))]"
  by (simp add: SD_Init_capacity_def Let_def split_beta SD_SendCommand_trace SD_READ_OCR_def)

lemma bit6: "(b AND 0x40 \<noteq> 0) = bit (b :: u8) 6"
  using bit_iff_and_push_bit_not_eq_0 [of b 6] by simp


lemma map_Xfer_fillers:
  "map fst (exchanges (map (\<lambda>k. Xfer b (f k)) ns)) = replicate (length ns) b"
  by (induction ns) simp_all

lemma SD_Init_unfold:
  "SD_Init w =
     (case SD_Init_poll 0 (snd (SD_Init_bringup w)) of
        Returned u w2 \<Rightarrow> Returned () (SD_Init_capacity (fst (SD_Init_bringup w)) w2)
      | Halted w2 \<Rightarrow> Halted w2
      | OutOfFuel w2 \<Rightarrow> OutOfFuel w2)"
  by (simp add: SD_Init_def split_beta)

lemma bringup_events:
  "\<exists>pre. trace (snd (SD_Init_bringup w)) = trace w @ pre
    \<and> map fst (exchanges pre) = bringup_bytes \<and> count_list pre (Delay 20) = 0"
proof -
  obtain es1 where es1:
    "trace (snd (SD_Init_bringup w)) = trace w @ [SpiInit, Select] @
      map (\<lambda>k. Xfer 0xff (rx w (pos w + k))) [0..<20] @
      [Xfer 0x40 (rx w (pos w + 20)), Xfer 0 (rx w (pos w + 21)), Xfer 0 (rx w (pos w + 22)),
       Xfer 0 (rx w (pos w + 23)), Xfer 0 (rx w (pos w + 24)), Xfer 0x95 (rx w (pos w + 25))] @ es1"
    "count_list es1 (Delay 20) = 0"
    "map fst (exchanges es1) = [0xFF, 0xFF] @ [0x48, 0, 0, 1, 0xAA, 0x87, 0xFF, 0xFF] @
         [0xFF, 0xFF, 0xFF, 0xFF] @ [0x7A, 0, 0, 0, 0, 0xFF, 0xFF, 0xFF] @ [0xFF, 0xFF, 0xFF, 0xFF]"
    using bringup_trace [of w] by blast
  let ?pre = "[SpiInit, Select] @
      map (\<lambda>k. Xfer 0xff (rx w (pos w + k))) [0..<20] @
      [Xfer 0x40 (rx w (pos w + 20)), Xfer 0 (rx w (pos w + 21)), Xfer 0 (rx w (pos w + 22)),
       Xfer 0 (rx w (pos w + 23)), Xfer 0 (rx w (pos w + 24)), Xfer 0x95 (rx w (pos w + 25))] @ es1"
  have "map fst (exchanges ?pre) = bringup_bytes"
    using es1(3) by (simp add: map_Xfer_fillers bringup_bytes_def)
  moreover have "count_list ?pre (Delay 20) = 0"
    using es1(2) by (simp add: count_list_0_iff image_iff)
  ultimately show ?thesis using es1(1) by blast
qed

lemma init_ready:
  assumes "n < 10"
    and "\<forall>k<n. rx w (pos w + 52 + 16 * k + 15) \<noteq> 0"
    and "rx w (pos w + 52 + 16 * n + 15) = 0"
  shows "\<exists>w' pre post. SD_Init w = Returned () w'
      \<and> events_since w w' = pre @ poll_passes (rx w) (pos w + 52) (Suc n) @ post
      \<and> map fst (exchanges pre) = bringup_bytes \<and> count_list pre (Delay 20) = 0
      \<and> map fst (exchanges post) = capacity_bytes \<and> count_list post (Delay 20) = 0
      \<and> isSDHC w' = (if bit (rx w (pos w + 52 + 16 * Suc n + 8)) 6 then 1 else 0)"
proof -
  let ?w1 = "snd (SD_Init_bringup w)"
  let ?buf = "fst (SD_Init_bringup w)"
  obtain pre where pre: "trace ?w1 = trace w @ pre"
    "map fst (exchanges pre) = bringup_bytes" "count_list pre (Delay 20) = 0"
    using bringup_events [of w] by blast
  have a: "(0 :: int) \<le> 0" "0 + int n < 10" using assms(1) by simp_all
  have b: "\<forall>j<n. rx ?w1 (pos ?w1 + 16 * j + 15) \<noteq> 0"
  proof (intro allI impI)
    fix j assume "j < n"
    then have "rx w (pos w + 52 + 16 * j + 15) \<noteq> 0" using assms(2) by simp
    then show "rx ?w1 (pos ?w1 + 16 * j + 15) \<noteq> 0" by (simp add: bringup_frame)
  qed
  have c: "rx ?w1 (pos ?w1 + 16 * n + 15) = 0"
    using assms(3) by (simp add: bringup_frame)
  from poll_returns [OF a b c] obtain w2 where w2:
    "SD_Init_poll 0 ?w1 = Returned () w2"
    "trace w2 = trace ?w1 @ poll_passes (rx ?w1) (pos ?w1) (Suc n)"
    "rx w2 = rx ?w1" "pos w2 = pos ?w1 + 16 * Suc n" "isSDHC w2 = isSDHC ?w1"
    by blast
  let ?w' = "SD_Init_capacity ?buf w2"
  obtain post where post: "trace ?w' = trace w2 @ post" "count_list post (Delay 20) = 0"
    "map fst (exchanges post) = capacity_bytes"
    using capacity_trace [of ?buf w2] by (auto simp: capacity_bytes_def)
  have "trace ?w' = trace w @ (pre @ poll_passes (rx w) (pos w + 52) (Suc n) @ post)"
    by (simp only: post(1) w2(2) pre(1) bringup_frame append_assoc)
  then have ev: "events_since w ?w' = pre @ poll_passes (rx w) (pos w + 52) (Suc n) @ post"
    by (rule events_since_append)
  have "isSDHC ?w' = (if rx w2 (pos w2 + 8) AND 0x40 \<noteq> 0 then 1 else 0)"
    by (rule capacity_frame) (simp add: bringup_buf)
  then have flag: "isSDHC ?w' = (if bit (rx w (pos w + 52 + 16 * Suc n + 8)) 6 then 1 else 0)"
    by (simp add: bit6 w2(3,4) bringup_frame)
  have "SD_Init w = Returned () ?w'"
    by (simp add: SD_Init_unfold w2(1))
  then show ?thesis
    using ev pre(2,3) post(2,3) flag by blast
qed

lemma init_halted:
  assumes "\<forall>k<10. rx w (pos w + 52 + 16 * k + 15) \<noteq> 0"
  shows "\<exists>w' pre. SD_Init w = Halted w'
      \<and> events_since w w' = pre @ poll_passes (rx w) (pos w + 52) 10 @
          [Printf ''SD: '' [], Printf (''Failed to initialize SD card'' @ CRLF) []]
      \<and> map fst (exchanges pre) = bringup_bytes \<and> count_list pre (Delay 20) = 0
      \<and> isSDHC w' = isSDHC w"
proof -
  let ?w1 = "snd (SD_Init_bringup w)"
  obtain pre where pre: "trace ?w1 = trace w @ pre"
    "map fst (exchanges pre) = bringup_bytes" "count_list pre (Delay 20) = 0"
    using bringup_events [of w] by blast
  have a: "(0 :: int) = 9 - int 9" "(9 :: nat) \<le> 9" by simp_all
  have b: "\<forall>j\<le>9. rx ?w1 (pos ?w1 + 16 * j + 15) \<noteq> 0"
  proof (intro allI impI)
    fix j :: nat assume "j \<le> 9"
    then have "rx w (pos w + 52 + 16 * j + 15) \<noteq> 0" using assms by simp
    then show "rx ?w1 (pos ?w1 + 16 * j + 15) \<noteq> 0" by (simp add: bringup_frame)
  qed
  have ten: "Suc 9 = 10" by simp
  from poll_halts [OF a b, unfolded ten] obtain w2 where w2:
    "SD_Init_poll 0 ?w1 = Halted w2"
    "trace w2 = trace ?w1 @ poll_passes (rx ?w1) (pos ?w1) 10 @
          [Printf ''SD: '' [], Printf (''Failed to initialize SD card'' @ CRLF) []]"
    "isSDHC w2 = isSDHC ?w1"
    by blast
  have "trace w2 = trace w @ (pre @ poll_passes (rx w) (pos w + 52) 10 @
          [Printf ''SD: '' [], Printf (''Failed to initialize SD card'' @ CRLF) []])"
    by (simp only: w2(2) pre(1) bringup_frame append_assoc)
  then have ev: "events_since w w2 = pre @ poll_passes (rx w) (pos w + 52) 10 @
          [Printf ''SD: '' [], Printf (''Failed to initialize SD card'' @ CRLF) []]"
    by (rule events_since_append)
  have "SD_Init w = Halted w2"
    by (simp add: SD_Init_unfold w2(1))
  moreover have "isSDHC w2 = isSDHC w" by (simp add: w2(3) bringup_frame)
  ultimately show ?thesis
    using ev pre(2,3) by blast
qed

lemma sim_card_simps [simp]:
  "pos (sim_card N b) = 0" "isSDHC (sim_card N b) = 0"
  "rx (sim_card N b) n = (if n = 52 + 16 * (N - 1) + 15 then 0
                 else if n = 52 + 16 * N + 8 then b else 1)"
  by (simp_all add: sim_card_def)

lemma init_returned:
  assumes "SD_Init w = Returned u w'"
  shows "\<exists>w2. SD_Init_poll 0 (snd (SD_Init_bringup w)) = Returned () w2
     \<and> w' = SD_Init_capacity (fst (SD_Init_bringup w)) w2"
  using assms by (auto simp: SD_Init_unfold split: outcome.splits)

lemma init_extends:
  "\<exists>rest. events_since w (state_of (SD_Init w)) =
     [SpiInit, Select] @ map (\<lambda>k. Xfer 0xFF (rx w (pos w + k))) [0..<20] @
     [Xfer 0x40 (rx w (pos w + 20)), Xfer 0 (rx w (pos w + 21)), Xfer 0 (rx w (pos w + 22)),
      Xfer 0 (rx w (pos w + 23)), Xfer 0 (rx w (pos w + 24)), Xfer 0x95 (rx w (pos w + 25))] @
     rest"
proof -
  let ?w1 = "snd (SD_Init_bringup w)"
  let ?buf = "fst (SD_Init_bringup w)"
  let ?pre = "[SpiInit, Select] @ map (\<lambda>k. Xfer 0xFF (rx w (pos w + k))) [0..<20] @
     [Xfer 0x40 (rx w (pos w + 20)), Xfer 0 (rx w (pos w + 21)), Xfer 0 (rx w (pos w + 22)),
      Xfer 0 (rx w (pos w + 23)), Xfer 0 (rx w (pos w + 24)), Xfer 0x95 (rx w (pos w + 25))]"
  obtain es1 where es1: "trace ?w1 = trace w @ ?pre @ es1"
    using bringup_trace [of w] by auto
  obtain es2 where es2: "trace (state_of (SD_Init_poll 0 ?w1)) = trace ?w1 @ es2"
    using poll_extends by blast
  show ?thesis
  proof (cases "SD_Init_poll 0 ?w1")
    case (Returned u w2)
    obtain es3 where es3: "trace (SD_Init_capacity ?buf w2) = trace w2 @ es3"
      using capacity_trace [of ?buf w2] by blast
    have "trace (state_of (SD_Init w)) = trace w @ ?pre @ (es1 @ es2 @ es3)"
      using es2 by (simp only: SD_Init_unfold Returned outcome.case state_of.simps es3 es1
          append_assoc)
    then have "events_since w (state_of (SD_Init w)) = ?pre @ (es1 @ es2 @ es3)"
      by (rule events_since_append)
    then show ?thesis by simp
  next
    case (Halted w2)
    have "trace (state_of (SD_Init w)) = trace w @ ?pre @ (es1 @ es2)"
      using es2 by (simp only: SD_Init_unfold Halted outcome.case state_of.simps es1
          append_assoc)
    then have "events_since w (state_of (SD_Init w)) = ?pre @ (es1 @ es2)"
      by (rule events_since_append)
    then show ?thesis by simp
  next
    case (OutOfFuel w2)
    have "trace (state_of (SD_Init w)) = trace w @ ?pre @ (es1 @ es2)"
      using es2 by (simp only: SD_Init_unfold OutOfFuel outcome.case state_of.simps es1
          append_assoc)
    then have "events_since w (state_of (SD_Init w)) = ?pre @ (es1 @ es2)"
      by (rule events_since_append)
    then show ?thesis by simp
  qed
qed

subsection \<open>Facts about the block transfer\<close>

lemma quiet_refl [simp]: "quiet w w"
  by (simp add: quiet_def)

lemma quiet_trans: "quiet w w' \<Longrightarrow> quiet w' w'' \<Longrightarrow> quiet w w''"
  by (auto simp: quiet_def)

lemma quiet_Transmit [simp]: "quiet w (snd (SPI1_Transmit b w))"
  by (simp add: quiet_def)

lemma quiet_SendCommand [simp]: "quiet w (snd (SD_SendCommand cmd args w))"
  by (simp add: quiet_def SD_SendCommand_trace)

lemma buffer_simps [simp]:
  "trace (SPI1_ReadBuffer buf len w) =
     trace w @ [ReadBuf buf (map (\<lambda>i. rx w (pos w + i)) [0..<len])]"
  "rx (SPI1_ReadBuffer buf len w) = rx w"
  "pos (SPI1_ReadBuffer buf len w) = pos w + len"
  "isSDHC (SPI1_ReadBuffer buf len w) = isSDHC w"
  "trace (SPI1_SendBuffer buf len w) =
     trace w @ [SendBuf buf (map (\<lambda>i. mem w (buf + of_nat i)) [0..<len])]"
  "rx (SPI1_SendBuffer buf len w) = rx w"
  "pos (SPI1_SendBuffer buf len w) = pos w + len"
  "isSDHC (SPI1_SendBuffer buf len w) = isSDHC w"
  by (simp_all add: SPI1_ReadBuffer_def SPI1_SendBuffer_def)

lemma quiet_buffers [simp]:
  "quiet w (SPI1_ReadBuffer buf len w)" "quiet w (SPI1_SendBuffer buf len w)"
  "quiet w (SPI1_Select w)" "quiet w (SPI1_Deselect w)" "quiet w (dprint s a w)"
  by (simp_all add: quiet_def)

lemma quiet_wait_token: "quiet w (state_of (SD_wait_token fuel w))"
proof (induction fuel arbitrary: w)
  case 0
  show ?case
    by (subst SD_wait_token.simps) (simp add: split_beta)
next
  case (Suc fuel)
  have "quiet (snd (SPI1_Transmit 0xff w)) (state_of (SD_wait_token fuel (snd (SPI1_Transmit 0xff w))))"
    by (rule Suc.IH)
  then have "quiet w (state_of (SD_wait_token fuel (snd (SPI1_Transmit 0xff w))))"
    by (rule quiet_trans [OF quiet_Transmit])
  then show ?case
    by (subst SD_wait_token.simps) (simp add: split_beta)
qed

lemma quiet_wait_busy: "quiet w (state_of (SD_wait_busy fuel w))"
proof (induction fuel arbitrary: w)
  case 0
  show ?case
    by (subst SD_wait_busy.simps) (simp add: split_beta)
next
  case (Suc fuel)
  have "quiet (snd (SPI1_Transmit 0xff w)) (state_of (SD_wait_busy fuel (snd (SPI1_Transmit 0xff w))))"
    by (rule Suc.IH)
  then have "quiet w (state_of (SD_wait_busy fuel (snd (SPI1_Transmit 0xff w))))"
    by (rule quiet_trans [OF quiet_Transmit])
  then show ?case
    by (subst SD_wait_busy.simps) (simp add: split_beta)
qed

lemma quiet_read_blocks: "quiet w (state_of (SD_ReadSectors_blocks fuel buf count w))"
proof (induction fuel buf count w rule: SD_ReadSectors_blocks.induct)
  case (1 fuel buf count w)
  show ?case
  proof (cases "count = 0")
    case True
    then show ?thesis by (subst SD_ReadSectors_blocks.simps) simp
  next
    case False
    have q1: "quiet w (state_of (SD_wait_token fuel w))" by (rule quiet_wait_token)
    show ?thesis
    proof (cases "SD_wait_token fuel w")
      case (Returned u w1)
      let ?w4 = "snd (SPI1_Transmit 0xff (snd (SPI1_Transmit 0xff (SPI1_ReadBuffer buf 512 w1))))"
      have "quiet w1 (SPI1_ReadBuffer buf 512 w1)" by simp
      then have "quiet w1 ?w4"
        by (meson quiet_trans quiet_Transmit)
      moreover have "quiet ?w4 (state_of (SD_ReadSectors_blocks fuel (buf + 512) (count - 1) ?w4))"
        using 1 [OF False Returned refl refl refl] .
      ultimately have "quiet w (state_of (SD_ReadSectors_blocks fuel (buf + 512) (count - 1) ?w4))"
        using q1 Returned by (auto intro: quiet_trans)
      then show ?thesis
        using False Returned by (subst SD_ReadSectors_blocks.simps) (simp add: Let_def)
    next
      case (Halted w1)
      then show ?thesis
        using False q1 by (subst SD_ReadSectors_blocks.simps) simp
    next
      case (OutOfFuel w1)
      then show ?thesis
        using False q1 by (subst SD_ReadSectors_blocks.simps) simp
    qed
  qed
qed

lemma quiet_write_blocks: "quiet w (SD_WriteSectors_blocks buf count w)"
proof (induction buf count w rule: SD_WriteSectors_blocks.induct)
  case (1 buf count w)
  show ?case
  proof (cases "count = 0")
    case True
    then show ?thesis by (subst SD_WriteSectors_blocks.simps) simp
  next
    case False
    let ?w4 = "snd (SPI1_Transmit 0xff (snd (SPI1_Transmit 0xff
        (SPI1_SendBuffer buf 512 (snd (SPI1_Transmit 0xfc w))))))"
    have "quiet w ?w4"
      by (meson quiet_trans quiet_Transmit quiet_buffers)
    moreover have "quiet ?w4 (SD_WriteSectors_blocks (buf + 512) (count - 1) ?w4)"
      using 1 [OF False refl refl refl refl] .
    ultimately have "quiet w (SD_WriteSectors_blocks (buf + 512) (count - 1) ?w4)"
      by (rule quiet_trans)
    then show ?thesis
      using False by (subst SD_WriteSectors_blocks.simps) (simp add: Let_def)
  qed
qed

lemma SD_SendCommand_events:
  "trace (snd (SD_SendCommand cmd args w)) = trace w @ command_events cmd args (rx w) (pos w)"
  by (simp add: SD_SendCommand_trace command_events_def)

lemma command_events_facts [simp]:
  "count_list (command_events cmd args r p) (Delay ms) = 0"
  "map fst (exchanges (command_events cmd args r p)) =
     [0x40 OR cmd, ucast (drop_bit 24 args), ucast (drop_bit 16 args),
      ucast (drop_bit 8 args), ucast args,
      (if cmd = 0 then 0x95 else if cmd = 8 then 0x87 else 0xFF), 0xFF, 0xFF]"
  by (simp_all add: command_events_def)

lemma write_attempts_0 [simp]: "write_attempts sector r p 0 = []"
  by (simp add: write_attempts_def)

lemma write_attempts_Suc:
  "write_attempts sector r p (Suc n) =
     command_events SD_WRITE_MULTIPLE_BLOCK sector r p @ [Delay 5] @
     write_attempts sector r (p + 8) n"
proof -
  have "[0..<Suc n] = 0 # map Suc [0..<n]"
    by (simp add: upt_conv_Cons map_Suc_upt del: upt_Suc)
  then show ?thesis
    by (simp add: write_attempts_def comp_def add.assoc del: upt_Suc)
qed

lemma write_attempts_facts [simp]:
  "count_list (write_attempts sector r p n) (Delay 5) = n"
  "map fst (exchanges (write_attempts sector r p n)) =
     concat (replicate n [0x59, ucast (drop_bit 24 sector), ucast (drop_bit 16 sector),
       ucast (drop_bit 8 sector), ucast sector, 0xFF, 0xFF, 0xFF])"
  by (induction n arbitrary: p)
    (simp_all add: write_attempts_Suc SD_WRITE_MULTIPLE_BLOCK_def)

lemma cmd_step:
  "trace (TIMER_Delay 5 (snd (SD_SendCommand SD_WRITE_MULTIPLE_BLOCK sector w))) =
     trace w @ command_events SD_WRITE_MULTIPLE_BLOCK sector (rx w) (pos w) @ [Delay 5]"
  by (simp add: SD_SendCommand_events)

lemma cmd_returns:
  assumes "\<forall>k<n. rx w (pos w + 8 * k + 7) \<noteq> 0"
    and "rx w (pos w + 8 * n + 7) = 0" and "n \<le> fuel"
  shows "\<exists>w'. SD_WriteSectors_cmd fuel sector w = Returned () w'
      \<and> trace w' = trace w @ write_attempts sector (rx w) (pos w) (Suc n)
      \<and> rx w' = rx w \<and> pos w' = pos w + 8 * Suc n \<and> isSDHC w' = isSDHC w"
  using assms
proof (induction n arbitrary: fuel w)
  case 0
  let ?w2 = "TIMER_Delay 5 (snd (SD_SendCommand SD_WRITE_MULTIPLE_BLOCK sector w))"
  have "SD_WriteSectors_cmd fuel sector w = Returned () ?w2"
    using 0 by (subst SD_WriteSectors_cmd.simps) (simp add: split_beta Let_def)
  moreover have "trace ?w2 = trace w @ write_attempts sector (rx w) (pos w) (Suc 0)"
    by (simp only: cmd_step write_attempts_Suc write_attempts_0 append_Nil2)
  ultimately show ?case by simp
next
  case (Suc n)
  let ?w2 = "TIMER_Delay 5 (snd (SD_SendCommand SD_WRITE_MULTIPLE_BLOCK sector w))"
  obtain f where f: "fuel = Suc f" "n \<le> f"
    using Suc.prems(3) by (cases fuel) simp_all
  have first: "rx w (pos w + 7) \<noteq> 0"
    using Suc.prems(1) [rule_format, of 0] by simp
  have unfold: "SD_WriteSectors_cmd fuel sector w = SD_WriteSectors_cmd f sector ?w2"
    using first f(1) by (subst SD_WriteSectors_cmd.simps) (simp add: split_beta Let_def)
  have b: "\<forall>k<n. rx ?w2 (pos ?w2 + 8 * k + 7) \<noteq> 0"
  proof (intro allI impI)
    fix k assume "k < n"
    then have "rx w (pos w + 8 * Suc k + 7) \<noteq> 0"
      using Suc.prems(1) [rule_format, of "Suc k"] by simp
    then show "rx ?w2 (pos ?w2 + 8 * k + 7) \<noteq> 0" by simp
  qed
  have c: "rx ?w2 (pos ?w2 + 8 * n + 7) = 0"
    using Suc.prems(2) by simp
  from Suc.IH [OF b c f(2)] obtain w' where
    h: "SD_WriteSectors_cmd f sector ?w2 = Returned () w'"
      "trace w' = trace ?w2 @ write_attempts sector (rx ?w2) (pos ?w2) (Suc n)"
      "rx w' = rx ?w2" "pos w' = pos ?w2 + 8 * Suc n" "isSDHC w' = isSDHC ?w2"
    by blast
  have p: "pos ?w2 = pos w + 8" "rx ?w2 = rx w" by simp_all
  show ?case
  proof (intro exI conjI)
    show "SD_WriteSectors_cmd fuel sector w = Returned () w'" using unfold h(1) by simp
    show "trace w' = trace w @ write_attempts sector (rx w) (pos w) (Suc (Suc n))"
      by (simp only: h(2) p cmd_step write_attempts_Suc [of _ _ _ "Suc n"] append_assoc)
    show "rx w' = rx w" using h(3) by simp
    show "pos w' = pos w + 8 * Suc (Suc n)" using h(4) by simp
    show "isSDHC w' = isSDHC w" using h(5) by simp
  qed
qed

lemma cmd_stuck:
  assumes "\<forall>k\<le>fuel. rx w (pos w + 8 * k + 7) \<noteq> 0"
  shows "\<exists>w'. SD_WriteSectors_cmd fuel sector w = OutOfFuel w'
      \<and> trace w' = trace w @ write_attempts sector (rx w) (pos w) (Suc fuel)
      \<and> isSDHC w' = isSDHC w \<and> rx w' = rx w"
  using assms
proof (induction fuel arbitrary: w)
  case 0
  let ?w2 = "TIMER_Delay 5 (snd (SD_SendCommand SD_WRITE_MULTIPLE_BLOCK sector w))"
  have "SD_WriteSectors_cmd 0 sector w = OutOfFuel ?w2"
    using 0 by (subst SD_WriteSectors_cmd.simps) (simp add: split_beta Let_def)
  moreover have "trace ?w2 = trace w @ write_attempts sector (rx w) (pos w) (Suc 0)"
    by (simp only: cmd_step write_attempts_Suc write_attempts_0 append_Nil2)
  ultimately show ?case by simp
next
  case (Suc f)
  let ?w2 = "TIMER_Delay 5 (snd (SD_SendCommand SD_WRITE_MULTIPLE_BLOCK sector w))"
  have first: "rx w (pos w + 7) \<noteq> 0"
    using Suc.prems [rule_format, of 0] by simp
  have unfold: "SD_WriteSectors_cmd (Suc f) sector w = SD_WriteSectors_cmd f sector ?w2"
    using first by (subst SD_WriteSectors_cmd.simps) (simp add: split_beta Let_def)
  have b: "\<forall>k\<le>f. rx ?w2 (pos ?w2 + 8 * k + 7) \<noteq> 0"
  proof (intro allI impI)
    fix k assume "k \<le> f"
    then have "rx w (pos w + 8 * Suc k + 7) \<noteq> 0"
      using Suc.prems [rule_format, of "Suc k"] by simp
    then show "rx ?w2 (pos ?w2 + 8 * k + 7) \<noteq> 0" by simp
  qed
  from Suc.IH [OF b] obtain w' where
    h: "SD_WriteSectors_cmd f sector ?w2 = OutOfFuel w'"
      "trace w' = trace ?w2 @ write_attempts sector (rx ?w2) (pos ?w2) (Suc f)"
      "isSDHC w' = isSDHC ?w2" "rx w' = rx ?w2"
    by blast
  have p: "pos ?w2 = pos w + 8" "rx ?w2 = rx w" by simp_all
  show ?case
  proof (intro exI conjI)
    show "SD_WriteSectors_cmd (Suc f) sector w = OutOfFuel w'" using unfold h(1) by simp
    show "trace w' = trace w @ write_attempts sector (rx w) (pos w) (Suc (Suc f))"
      by (simp only: h(2) p cmd_step write_attempts_Suc [of _ _ _ "Suc f"] append_assoc)
    show "isSDHC w' = isSDHC w" using h(3) by simp
    show "rx w' = rx w" using h(4) by simp
  qed
qed

lemma cmd_attempts:
  "\<exists>n. 1 \<le> n \<and> trace (state_of (SD_WriteSectors_cmd fuel sector w)) =
        trace w @ write_attempts sector (rx w) (pos w) n
     \<and> isSDHC (state_of (SD_WriteSectors_cmd fuel sector w)) = isSDHC w
     \<and> rx (state_of (SD_WriteSectors_cmd fuel sector w)) = rx w"
proof (cases "\<exists>n\<le>fuel. rx w (pos w + 8 * n + 7) = 0")
  case True
  define n where "n = (LEAST n. rx w (pos w + 8 * n + 7) = 0)"
  from True obtain m where m: "m \<le> fuel" "rx w (pos w + 8 * m + 7) = 0" by blast
  have z: "rx w (pos w + 8 * n + 7) = 0"
    unfolding n_def using m(2) by (rule LeastI)
  have le: "n \<le> fuel"
    unfolding n_def using m by (meson Least_le le_trans)
  have nz: "\<forall>k<n. rx w (pos w + 8 * k + 7) \<noteq> 0"
    unfolding n_def using not_less_Least by blast
  from cmd_returns [OF nz z le, of sector] show ?thesis
    by (intro exI [of _ "Suc n"]) auto
next
  case False
  then have "\<forall>k\<le>fuel. rx w (pos w + 8 * k + 7) \<noteq> 0" by blast
  from cmd_stuck [OF this, of sector] show ?thesis
    by (intro exI [of _ "Suc fuel"]) auto
qed


lemma quiet_state_of_wait_busy_Deselect:
  "quiet w (state_of (case SD_wait_busy fuel w of
       Returned u w7 \<Rightarrow> Returned (0 :: u8) (SPI1_Deselect w7)
     | Halted w7 \<Rightarrow> Halted w7 | OutOfFuel w7 \<Rightarrow> OutOfFuel w7))"
  using quiet_wait_busy [of w fuel]
  by (cases "SD_wait_busy fuel w") (auto intro: quiet_trans)

lemma write_tail:
  assumes "SD_WriteSectors_cmd fuel (sector * 512) (SPI1_Select w) = Returned u w2"
  shows "\<exists>rest. trace (state_of (SD_WriteSectors fuel buf sector count w)) =
        trace w2 @ Xfer 0xFF (rx w2 (pos w2)) # rest
      \<and> count_list rest (Delay 5) = 0
      \<and> isSDHC (state_of (SD_WriteSectors fuel buf sector count w)) = isSDHC w2"
proof -
  let ?w3 = "snd (SPI1_Transmit 0xff w2)"
  let ?w6 = "snd (SPI1_Transmit 0xff (snd (SPI1_Transmit 0xfd
      (SD_WriteSectors_blocks buf count ?w3))))"
  let ?end = "state_of (case SD_wait_busy fuel ?w6 of
       Returned u w7 \<Rightarrow> Returned (0 :: u8) (SPI1_Deselect w7)
     | Halted w7 \<Rightarrow> Halted w7 | OutOfFuel w7 \<Rightarrow> OutOfFuel w7)"
  have u: "state_of (SD_WriteSectors fuel buf sector count w) = ?end"
    using assms by (simp add: SD_WriteSectors_def Let_def)
  have "quiet ?w3 ?w6"
    by (meson quiet_trans quiet_Transmit quiet_write_blocks)
  then have "quiet ?w3 ?end"
    using quiet_state_of_wait_busy_Deselect by (rule quiet_trans)
  then obtain rest where "trace ?end = trace ?w3 @ rest" "count_list rest (Delay 5) = 0"
      "isSDHC ?end = isSDHC ?w3"
    by (auto simp: quiet_def)
  then show ?thesis
    unfolding u by simp
qed

lemma write_events:
  "\<exists>n rest. 1 \<le> n
     \<and> events_since w (state_of (SD_WriteSectors fuel buf sector count w)) =
         Select # write_attempts (sector * 512) (rx w) (pos w) n @ rest
     \<and> count_list rest (Delay 5) = 0
     \<and> isSDHC (state_of (SD_WriteSectors fuel buf sector count w)) = isSDHC w"
proof -
  let ?w1 = "SPI1_Select w"
  let ?c = "SD_WriteSectors_cmd fuel (sector * 512) ?w1"
  obtain n where n: "1 \<le> n"
    "trace (state_of ?c) = trace ?w1 @ write_attempts (sector * 512) (rx ?w1) (pos ?w1) n"
    "isSDHC (state_of ?c) = isSDHC ?w1"
    using cmd_attempts [of fuel "sector * 512" ?w1] by blast
  have t: "trace (state_of ?c) = trace w @ Select # write_attempts (sector * 512) (rx w) (pos w) n"
    using n(2) by simp
  show ?thesis
  proof (cases ?c)
    case (Returned u w2)
    from write_tail [OF Returned, of buf count] obtain rest where
      r: "trace (state_of (SD_WriteSectors fuel buf sector count w)) =
        trace w2 @ Xfer 0xFF (rx w2 (pos w2)) # rest" "count_list rest (Delay 5) = 0"
        "isSDHC (state_of (SD_WriteSectors fuel buf sector count w)) = isSDHC w2"
      by blast
    have "trace (state_of (SD_WriteSectors fuel buf sector count w)) =
        trace w @ (Select # write_attempts (sector * 512) (rx w) (pos w) n @
          Xfer 0xFF (rx w2 (pos w2)) # rest)"
      using r(1) t Returned by simp
    then have "events_since w (state_of (SD_WriteSectors fuel buf sector count w)) =
        Select # write_attempts (sector * 512) (rx w) (pos w) n @
          Xfer 0xFF (rx w2 (pos w2)) # rest"
      by (rule events_since_append)
    moreover have "count_list (Xfer 0xFF (rx w2 (pos w2)) # rest) (Delay 5) = 0"
      using r(2) by simp
    moreover have "isSDHC (state_of (SD_WriteSectors fuel buf sector count w)) = isSDHC w"
      using r(3) n(3) Returned by simp
    ultimately show ?thesis using n(1) by blast
  next
    case (Halted w2)
    then have u: "state_of (SD_WriteSectors fuel buf sector count w) = state_of ?c"
      by (simp add: SD_WriteSectors_def Let_def)
    have "events_since w (state_of (SD_WriteSectors fuel buf sector count w)) =
        Select # write_attempts (sector * 512) (rx w) (pos w) n @ []"
      unfolding u using t by (intro events_since_append) simp
    then show ?thesis using n(1,3) u by (intro exI [of _ n] exI [of _ "[]"]) simp
  next
    case (OutOfFuel w2)
    then have u: "state_of (SD_WriteSectors fuel buf sector count w) = state_of ?c"
      by (simp add: SD_WriteSectors_def Let_def)
    have "events_since w (state_of (SD_WriteSectors fuel buf sector count w)) =
        Select # write_attempts (sector * 512) (rx w) (pos w) n @ []"
      unfolding u using t by (intro events_since_append) simp
    then show ?thesis using n(1,3) u by (intro exI [of _ n] exI [of _ "[]"]) simp
  qed
qed

lemma read_events:
  "\<exists>rest. events_since w (state_of (SD_ReadSectors fuel buf sector count w)) =
       Select # command_events SD_READ_MULTIPLE_BLOCK
          (if isSDHC w = 0 then sector * 512 else sector) (rx w) (pos w) @
       (if rx w (pos w + 7) \<noteq> 0
        then [Printf ''SD: '' [], Printf (''SD_READ_MULTIPLE_BLOCK error'' @ CRLF) []] else []) @
       rest
     \<and> isSDHC (state_of (SD_ReadSectors fuel buf sector count w)) = isSDHC w"
proof -
  let ?a = "if isSDHC w = 0 then sector * 512 else sector"
  let ?w2 = "snd (SD_SendCommand SD_READ_MULTIPLE_BLOCK ?a (SPI1_Select w))"
  let ?w3 = "if rx w (pos w + 7) \<noteq> 0
     then dprint (''SD_READ_MULTIPLE_BLOCK error'' @ CRLF) [] ?w2 else ?w2"
  let ?b = "SD_ReadSectors_blocks fuel buf count ?w3"
  let ?end = "state_of (SD_ReadSectors fuel buf sector count w)"
  have u: "SD_ReadSectors fuel buf sector count w =
     (case ?b of
        Returned u w4 \<Rightarrow>
          (case SD_wait_busy fuel (snd (SD_SendCommand SD_STOP_TRANSMISSION 0 w4)) of
             Returned u w6 \<Rightarrow> Returned 0 (SPI1_Deselect w6)
           | Halted w6 \<Rightarrow> Halted w6
           | OutOfFuel w6 \<Rightarrow> OutOfFuel w6)
      | Halted w4 \<Rightarrow> Halted w4
      | OutOfFuel w4 \<Rightarrow> OutOfFuel w4)"
    by (auto simp add: SD_ReadSectors_def Let_def split_beta split: outcome.splits)
  have qb: "quiet ?w3 (state_of ?b)" by (rule quiet_read_blocks)
  have "quiet ?w3 ?end"
  proof (cases ?b)
    case (Returned u w4)
    have "quiet w4 (snd (SD_SendCommand SD_STOP_TRANSMISSION 0 w4))" by simp
    then have "quiet w4 ?end"
      unfolding u Returned outcome.case
      using quiet_state_of_wait_busy_Deselect by (rule quiet_trans)
    then show ?thesis using qb Returned by (auto intro: quiet_trans)
  next
    case (Halted w4)
    then show ?thesis using qb u by simp
  next
    case (OutOfFuel w4)
    then show ?thesis using qb u by simp
  qed
  then obtain rest where r: "trace ?end = trace ?w3 @ rest" "isSDHC ?end = isSDHC ?w3"
    by (auto simp: quiet_def)
  have "trace ?w3 = trace w @ (Select # command_events SD_READ_MULTIPLE_BLOCK ?a (rx w) (pos w) @
       (if rx w (pos w + 7) \<noteq> 0
        then [Printf ''SD: '' [], Printf (''SD_READ_MULTIPLE_BLOCK error'' @ CRLF) []] else []))"
    by (simp add: SD_SendCommand_events)
  then have "trace ?end = trace w @ (Select # command_events SD_READ_MULTIPLE_BLOCK ?a (rx w) (pos w) @
       (if rx w (pos w + 7) \<noteq> 0
        then [Printf ''SD: '' [], Printf (''SD_READ_MULTIPLE_BLOCK error'' @ CRLF) []] else []) @
       rest)"
    using r(1) by simp
  then have "events_since w ?end = Select # command_events SD_READ_MULTIPLE_BLOCK ?a (rx w) (pos w) @
       (if rx w (pos w + 7) \<noteq> 0
        then [Printf ''SD: '' [], Printf (''SD_READ_MULTIPLE_BLOCK error'' @ CRLF) []] else []) @
       rest"
    by (rule events_since_append)
  moreover have "isSDHC ?end = isSDHC w"
    using r(2) by simp
  ultimately show ?thesis by blast
qed


lemma write_retry:
  assumes "\<forall>k<n. rx w (pos w + 8 * k + 7) \<noteq> 0"
    and "rx w (pos w + 8 * n + 7) = 0" and "n \<le> fuel"
  shows "\<exists>rest. events_since w (state_of (SD_WriteSectors fuel buf sector count w)) =
        Select # write_attempts (sector * 512) (rx w) (pos w) (Suc n) @
        Xfer 0xFF (rx w (pos w + 8 * Suc n)) # rest
      \<and> count_list rest (Delay 5) = 0"
proof -
  let ?w1 = "SPI1_Select w"
  have a: "\<forall>k<n. rx ?w1 (pos ?w1 + 8 * k + 7) \<noteq> 0" "rx ?w1 (pos ?w1 + 8 * n + 7) = 0"
    using assms(1,2) by simp_all
  from cmd_returns [OF a assms(3), of "sector * 512"] obtain w2 where
    w2: "SD_WriteSectors_cmd fuel (sector * 512) ?w1 = Returned () w2"
      "trace w2 = trace ?w1 @ write_attempts (sector * 512) (rx ?w1) (pos ?w1) (Suc n)"
      "rx w2 = rx ?w1" "pos w2 = pos ?w1 + 8 * Suc n"
    by blast
  from write_tail [OF w2(1), of buf count] obtain rest where
    r: "trace (state_of (SD_WriteSectors fuel buf sector count w)) =
        trace w2 @ Xfer 0xFF (rx w2 (pos w2)) # rest" "count_list rest (Delay 5) = 0"
    by blast
  have "trace (state_of (SD_WriteSectors fuel buf sector count w)) =
      trace w @ (Select # write_attempts (sector * 512) (rx w) (pos w) (Suc n) @
        Xfer 0xFF (rx w (pos w + 8 * Suc n)) # rest)"
    using r(1) w2(2,3,4) by simp
  then have "events_since w (state_of (SD_WriteSectors fuel buf sector count w)) =
      Select # write_attempts (sector * 512) (rx w) (pos w) (Suc n) @
        Xfer 0xFF (rx w (pos w + 8 * Suc n)) # rest"
    by (rule events_since_append)
  then show ?thesis using r(2) by blast
qed

lemma write_never:
  assumes "\<forall>k\<le>fuel. rx w (pos w + 8 * k + 7) \<noteq> 0"
  shows "SD_WriteSectors fuel buf sector count w =
       OutOfFuel (state_of (SD_WriteSectors fuel buf sector count w))
     \<and> count_list (events_since w (state_of (SD_WriteSectors fuel buf sector count w)))
         (Delay 5) = Suc fuel"
proof -
  let ?w1 = "SPI1_Select w"
  have a: "\<forall>k\<le>fuel. rx ?w1 (pos ?w1 + 8 * k + 7) \<noteq> 0"
    using assms by simp
  from cmd_stuck [OF a, of "sector * 512"] obtain w2 where
    w2: "SD_WriteSectors_cmd fuel (sector * 512) ?w1 = OutOfFuel w2"
      "trace w2 = trace ?w1 @ write_attempts (sector * 512) (rx ?w1) (pos ?w1) (Suc fuel)"
    by blast
  have u: "SD_WriteSectors fuel buf sector count w = OutOfFuel w2"
    using w2(1) by (simp add: SD_WriteSectors_def Let_def)
  have "trace w2 = trace w @ (Select # write_attempts (sector * 512) (rx w) (pos w) (Suc fuel))"
    using w2(2) by simp
  then have "events_since w w2 = Select # write_attempts (sector * 512) (rx w) (pos w) (Suc fuel)"
    by (rule events_since_append)
  then show ?thesis using u by simp
qed

lemma flag_log_event: "log_event e (w\<lparr>isSDHC := f\<rparr>) = (log_event e w)\<lparr>isSDHC := f\<rparr>"
  by (simp add: log_event_def)

lemma flag_devices:
  "SPI1_Select (w\<lparr>isSDHC := f\<rparr>) = (SPI1_Select w)\<lparr>isSDHC := f\<rparr>"
  "SPI1_Deselect (w\<lparr>isSDHC := f\<rparr>) = (SPI1_Deselect w)\<lparr>isSDHC := f\<rparr>"
  "TIMER_Delay ms (w\<lparr>isSDHC := f\<rparr>) = (TIMER_Delay ms w)\<lparr>isSDHC := f\<rparr>"
  "dprint s a (w\<lparr>isSDHC := f\<rparr>) = (dprint s a w)\<lparr>isSDHC := f\<rparr>"
  "SPI1_SendBuffer buf len (w\<lparr>isSDHC := f\<rparr>) = (SPI1_SendBuffer buf len w)\<lparr>isSDHC := f\<rparr>"
  by (simp_all add: SPI1_Select_def SPI1_Deselect_def TIMER_Delay_def dprint_def
      SPI1_SendBuffer_def flag_log_event)

lemma flag_Transmit:
  "SPI1_Transmit b (w\<lparr>isSDHC := f\<rparr>) =
     (fst (SPI1_Transmit b w), (snd (SPI1_Transmit b w))\<lparr>isSDHC := f\<rparr>)"
  by (simp add: SPI1_Transmit_def)

lemma flag_SendCommand:
  "SD_SendCommand cmd args (w\<lparr>isSDHC := f\<rparr>) =
     (fst (SD_SendCommand cmd args w), (snd (SD_SendCommand cmd args w))\<lparr>isSDHC := f\<rparr>)"
  by (simp add: SD_SendCommand_def Let_def split_beta flag_Transmit flag_devices)

lemma flag_cmd:
  "SD_WriteSectors_cmd fuel sector (w\<lparr>isSDHC := f\<rparr>) =
     with_flag f (SD_WriteSectors_cmd fuel sector w)"
proof (induction fuel arbitrary: w)
  case 0
  show ?case
    by (subst (1 2) SD_WriteSectors_cmd.simps)
      (simp add: flag_SendCommand flag_devices Let_def split_beta)
next
  case (Suc fuel)
  show ?case
    by (subst (1 2) SD_WriteSectors_cmd.simps)
      (simp add: flag_SendCommand flag_devices Let_def split_beta Suc.IH)
qed

lemma flag_wait_busy:
  "SD_wait_busy fuel (w\<lparr>isSDHC := f\<rparr>) = with_flag f (SD_wait_busy fuel w)"
proof (induction fuel arbitrary: w)
  case 0
  show ?case
    by (subst (1 2) SD_wait_busy.simps) (simp add: flag_Transmit split_beta)
next
  case (Suc fuel)
  show ?case
    by (subst (1 2) SD_wait_busy.simps) (simp add: flag_Transmit split_beta Suc.IH)
qed

lemma flag_write_blocks:
  "SD_WriteSectors_blocks buf count (w\<lparr>isSDHC := f\<rparr>) =
     (SD_WriteSectors_blocks buf count w)\<lparr>isSDHC := f\<rparr>"
proof (induction buf count w rule: SD_WriteSectors_blocks.induct)
  case (1 buf count w)
  show ?case
  proof (cases "count = 0")
    case True
    then show ?thesis by (subst (1 2) SD_WriteSectors_blocks.simps) simp
  next
    case False
    then show ?thesis
      using 1 [OF False refl refl refl refl]
      by (subst (1 2) SD_WriteSectors_blocks.simps)
        (simp add: Let_def flag_Transmit flag_devices)
  qed
qed

lemma flag_WriteSectors:
  "SD_WriteSectors fuel buf sector count (w\<lparr>isSDHC := f\<rparr>) =
     with_flag f (SD_WriteSectors fuel buf sector count w)"
proof (cases "SD_WriteSectors_cmd fuel (sector * 512) (SPI1_Select w)")
  case (Returned u w2)
  let ?w6 = "snd (SPI1_Transmit 0xff (snd (SPI1_Transmit 0xfd
      (SD_WriteSectors_blocks buf count (snd (SPI1_Transmit 0xff w2))))))"
  show ?thesis
    by (cases "SD_wait_busy fuel ?w6")
      (simp_all add: SD_WriteSectors_def Let_def flag_devices flag_cmd Returned flag_Transmit
        flag_write_blocks flag_wait_busy)
next
  case (Halted w2)
  then show ?thesis
    by (simp add: SD_WriteSectors_def Let_def flag_devices flag_cmd)
next
  case (OutOfFuel w2)
  then show ?thesis
    by (simp add: SD_WriteSectors_def Let_def flag_devices flag_cmd)
qed

lemma card_of_simps [simp]:
  "trace (card_of r) = []" "rx (card_of r) = r" "pos (card_of r) = 0"
  "isSDHC (card_of r) = 0"
  by (simp_all add: card_of_def)

lemma wait_token_now:
  "rx w (pos w) = 0xFE \<Longrightarrow> SD_wait_token fuel w = Returned () (snd (SPI1_Transmit 0xff w))"
  by (subst SD_wait_token.simps) (simp add: split_beta SD_TOKEN_SBR_MBR_SBW_def)

lemma wait_busy_now:
  "rx w (pos w) \<noteq> 0 \<Longrightarrow> SD_wait_busy fuel w = Returned () (snd (SPI1_Transmit 0xff w))"
  by (subst SD_wait_busy.simps) (simp add: split_beta)

lemma write_blocks_pos:
  "pos (SD_WriteSectors_blocks buf count w) = pos w + 515 * unat count"
proof (induction buf count w rule: SD_WriteSectors_blocks.induct)
  case (1 buf count w)
  show ?case
  proof (cases "count = 0")
    case True
    then show ?thesis by (subst SD_WriteSectors_blocks.simps) simp
  next
    case False
    then have "unat count = Suc (unat (count - 1))"
      by (simp add: unat_minus_one unat_gt_0)
    then show ?thesis
      using False 1 [OF False refl refl refl refl]
      by (subst SD_WriteSectors_blocks.simps) (simp add: Let_def)
  qed
qed

lemma write_blocks_rx: "rx (SD_WriteSectors_blocks buf count w) = rx w"
  using quiet_write_blocks [of w buf count] by (simp add: quiet_def)

lemma write_returns:
  assumes "\<forall>k<n. rx w (pos w + 8 * k + 7) \<noteq> 0"
    and "rx w (pos w + 8 * n + 7) = 0" and "n \<le> fuel"
    and "rx w (pos w + 8 * Suc n + 515 * unat count + 3) \<noteq> 0"
  shows "\<exists>r w'. SD_WriteSectors fuel buf sector count w = Returned r w'"
proof -
  let ?w1 = "SPI1_Select w"
  have a: "\<forall>k<n. rx ?w1 (pos ?w1 + 8 * k + 7) \<noteq> 0" "rx ?w1 (pos ?w1 + 8 * n + 7) = 0"
    using assms(1,2) by simp_all
  from cmd_returns [OF a assms(3), of "sector * 512"] obtain w2 where
    w2: "SD_WriteSectors_cmd fuel (sector * 512) ?w1 = Returned () w2"
      "rx w2 = rx ?w1" "pos w2 = pos ?w1 + 8 * Suc n"
    by blast
  let ?w6 = "snd (SPI1_Transmit 0xff (snd (SPI1_Transmit 0xfd
      (SD_WriteSectors_blocks buf count (snd (SPI1_Transmit 0xff w2))))))"
  have "pos ?w6 = pos w + 8 * Suc n + 515 * unat count + 3" "rx ?w6 = rx w"
    by (simp_all add: write_blocks_pos write_blocks_rx w2(2,3))
  then have "rx ?w6 (pos ?w6) \<noteq> 0"
    using assms(4) by simp
  then have "SD_wait_busy fuel ?w6 = Returned () (snd (SPI1_Transmit 0xff ?w6))"
    by (rule wait_busy_now)
  then show ?thesis
    using w2(1) by (simp add: SD_WriteSectors_def Let_def)
qed

lemma read_blocks_0: "SD_ReadSectors_blocks fuel buf 0 w = Returned () w"
  by (subst SD_ReadSectors_blocks.simps) simp

lemma read_blocks_step:
  "count \<noteq> 0 \<Longrightarrow> SD_wait_token fuel w = Returned () w1 \<Longrightarrow>
   SD_ReadSectors_blocks fuel buf count w =
     SD_ReadSectors_blocks fuel (buf + 512) (count - 1)
       (snd (SPI1_Transmit 0xff (snd (SPI1_Transmit 0xff (SPI1_ReadBuffer buf 512 w1)))))"
  by (subst SD_ReadSectors_blocks.simps) (simp add: Let_def)

lemma read_returns_one:
  assumes "rx w (pos w + 8) = 0xFE" and "rx w (pos w + 531) \<noteq> 0"
  shows "\<exists>r w'. SD_ReadSectors fuel buf sector 1 w = Returned r w'"
proof -
  let ?a = "if isSDHC w = 0 then sector * 512 else sector"
  let ?w2 = "snd (SD_SendCommand SD_READ_MULTIPLE_BLOCK ?a (SPI1_Select w))"
  let ?w3 = "if rx w (pos w + 7) \<noteq> 0
     then dprint (''SD_READ_MULTIPLE_BLOCK error'' @ CRLF) [] ?w2 else ?w2"
  let ?w4 = "snd (SPI1_Transmit 0xff (snd (SPI1_Transmit 0xff
      (SPI1_ReadBuffer buf 512 (snd (SPI1_Transmit 0xff ?w3))))))"
  let ?w5 = "snd (SD_SendCommand SD_STOP_TRANSMISSION 0 ?w4)"
  have p3: "pos ?w3 = pos w + 8" "rx ?w3 = rx w" by simp_all
  have "rx ?w3 (pos ?w3) = 0xFE" using assms(1) by (simp only: p3)
  then have t: "SD_wait_token fuel ?w3 = Returned () (snd (SPI1_Transmit 0xff ?w3))"
    by (rule wait_token_now)
  have b: "SD_ReadSectors_blocks fuel buf 1 ?w3 = Returned () ?w4"
    using read_blocks_step [OF _ t, of 1 buf] by (simp add: read_blocks_0)
  have "pos ?w5 = pos w + 531" "rx ?w5 = rx w"
    by simp_all
  then have "rx ?w5 (pos ?w5) \<noteq> 0" using assms(2) by simp
  then have "SD_wait_busy fuel ?w5 = Returned () (snd (SPI1_Transmit 0xff ?w5))"
    by (rule wait_busy_now)
  then show ?thesis
    using b by (simp add: SD_ReadSectors_def Let_def split_beta)
qed


section \<open>Claims\<close>

text \<open>
  C1. For every command index and every 32-bit argument, \<open>SD_SendCommand\<close> first
  transmits the six bytes of the command frame, in this order: \<open>0x40 OR cmd\<close>, the four
  bytes of the argument from the most significant to the least significant, and a
  checksum byte that is \<open>0x95\<close> for command 0 (GO_IDLE_STATE), \<open>0x87\<close> for command 8
  (SEND_IF_COND) and \<open>0xFF\<close> for every other command. The only bytes it transmits after
  the frame are the two fillers of the response probe. The four argument bytes, each
  shifted back to its place, make up the argument.
\<close>

theorem SD_SendCommand_frame:
  "map fst (exchanges (events_since w (snd (SD_SendCommand cmd args w)))) =
     [0x40 OR cmd,
      ucast (drop_bit 24 args), ucast (drop_bit 16 args), ucast (drop_bit 8 args), ucast args,
      (if cmd = 0 then 0x95 else if cmd = 8 then 0x87 else 0xFF)] @ [0xFF, 0xFF]
   \<and> push_bit 24 (ucast (ucast (drop_bit 24 args) :: u8)) OR
     push_bit 16 (ucast (ucast (drop_bit 16 args) :: u8)) OR
     push_bit 8 (ucast (ucast (drop_bit 8 args) :: u8)) OR
     ucast (ucast args :: u8) = args"
  by (simp add: SD_SendCommand_trace argument_bytes)

theorem SD_SendCommand_frame_witness:
  "map fst (exchanges (events_since idle_card (snd (SD_SendCommand 0 0 idle_card)))) =
     [0x40, 0, 0, 0, 0, 0x95, 0xFF, 0xFF]
   \<and> map fst (exchanges (events_since idle_card (snd (SD_SendCommand 8 0x1AA idle_card)))) =
     [0x48, 0, 0, 1, 0xAA, 0x87, 0xFF, 0xFF]
   \<and> map fst (exchanges (events_since idle_card (snd (SD_SendCommand 18 0x12345678 idle_card)))) =
     [0x52, 0x12, 0x34, 0x56, 0x78, 0xFF, 0xFF, 0xFF]"
  using SD_SendCommand_frame [of idle_card 0 0] SD_SendCommand_frame [of idle_card 8 "0x1AA"]
    SD_SendCommand_frame [of idle_card 18 "0x12345678"]
  by simp

text \<open>
  C2. The card answers the ACMD41 of pass \<open>k\<close> (from 0) of the polling loop with the
  status \<open>rx w (pos w + 52 + 16 * k + 15)\<close>: 52 bytes are clocked before the loop and 16
  in each pass, the status being the last of them (see \<open>poll_events\<close>). If the status
  is \<open>0x00\<close> for the first time on attempt \<open>N\<close>, with \<open>1 \<le> N \<le> 10\<close>, then \<open>SD_Init\<close>
  returns; its events are those of the bring-up, then exactly \<open>N\<close> passes of the loop
  (APP_CMD, ACMD41, \<open>TIMER_Delay(20)\<close>), then those of the capacity read; and it has
  set the capacity flag from bit 6 of the first OCR byte of that read. If the status is
  not zero on all 10 attempts, \<open>SD_Init\<close> ends in \<^verbatim>\<open>while(1);\<close> after exactly 10 passes
  and the failure message, never returns, sends no capacity read and leaves the flag
  as it was.
\<close>

theorem SD_Init_polling:
  "(1 \<le> N \<and> N \<le> 10
      \<and> (\<forall>k<N - 1. rx w (pos w + 52 + 16 * k + 15) \<noteq> 0)
      \<and> rx w (pos w + 52 + 16 * (N - 1) + 15) = 0
    \<longrightarrow> SD_Init w = Returned () (state_of (SD_Init w))
      \<and> (\<exists>pre post. events_since w (state_of (SD_Init w)) =
            pre @ poll_passes (rx w) (pos w + 52) N @ post
          \<and> map fst (exchanges pre) = bringup_bytes \<and> count_list pre (Delay 20) = 0
          \<and> map fst (exchanges post) = capacity_bytes \<and> count_list post (Delay 20) = 0)
      \<and> count_list (events_since w (state_of (SD_Init w))) (Delay 20) = N
      \<and> map fst (exchanges (events_since w (state_of (SD_Init w)))) =
          bringup_bytes @ concat (replicate N poll_bytes) @ capacity_bytes
      \<and> isSDHC (state_of (SD_Init w)) =
          (if bit (rx w (pos w + 52 + 16 * N + 8)) 6 then 1 else 0))
   \<and> ((\<forall>k<10. rx w (pos w + 52 + 16 * k + 15) \<noteq> 0)
    \<longrightarrow> SD_Init w = Halted (state_of (SD_Init w))
      \<and> (\<exists>pre. events_since w (state_of (SD_Init w)) =
            pre @ poll_passes (rx w) (pos w + 52) 10 @
            [Printf ''SD: '' [], Printf (''Failed to initialize SD card'' @ CRLF) []]
          \<and> map fst (exchanges pre) = bringup_bytes \<and> count_list pre (Delay 20) = 0)
      \<and> count_list (events_since w (state_of (SD_Init w))) (Delay 20) = 10
      \<and> map fst (exchanges (events_since w (state_of (SD_Init w)))) =
          bringup_bytes @ concat (replicate 10 poll_bytes)
      \<and> isSDHC (state_of (SD_Init w)) = isSDHC w)"
proof (intro conjI impI)
  assume h: "1 \<le> N \<and> N \<le> 10
      \<and> (\<forall>k<N - 1. rx w (pos w + 52 + 16 * k + 15) \<noteq> 0)
      \<and> rx w (pos w + 52 + 16 * (N - 1) + 15) = 0"
  then have n: "N - 1 < 10" "Suc (N - 1) = N" by auto
  from h init_ready [of "N - 1" w, unfolded n(2)] n(1)
  obtain w' pre post where w': "SD_Init w = Returned () w'"
      "events_since w w' = pre @ poll_passes (rx w) (pos w + 52) N @ post"
      "map fst (exchanges pre) = bringup_bytes" "count_list pre (Delay 20) = 0"
      "map fst (exchanges post) = capacity_bytes" "count_list post (Delay 20) = 0"
      "isSDHC w' = (if bit (rx w (pos w + 52 + 16 * N + 8)) 6 then 1 else 0)"
    by blast
  have s: "state_of (SD_Init w) = w'" by (simp add: w'(1))
  show "SD_Init w = Returned () (state_of (SD_Init w))" by (simp add: w'(1))
  show "\<exists>pre post. events_since w (state_of (SD_Init w)) =
            pre @ poll_passes (rx w) (pos w + 52) N @ post
          \<and> map fst (exchanges pre) = bringup_bytes \<and> count_list pre (Delay 20) = 0
          \<and> map fst (exchanges post) = capacity_bytes \<and> count_list post (Delay 20) = 0"
    unfolding s using w'(2-6) by blast
  show "count_list (events_since w (state_of (SD_Init w))) (Delay 20) = N"
    unfolding s w'(2) by (simp add: w'(4,6))
  show "map fst (exchanges (events_since w (state_of (SD_Init w)))) =
          bringup_bytes @ concat (replicate N poll_bytes) @ capacity_bytes"
    unfolding s w'(2) by (simp add: w'(3,5))
  show "isSDHC (state_of (SD_Init w)) =
          (if bit (rx w (pos w + 52 + 16 * N + 8)) 6 then 1 else 0)"
    unfolding s by (rule w'(7))
next
  assume h: "\<forall>k<10. rx w (pos w + 52 + 16 * k + 15) \<noteq> 0"
  from init_halted [OF h]
  obtain w' pre where w': "SD_Init w = Halted w'"
      "events_since w w' = pre @ poll_passes (rx w) (pos w + 52) 10 @
          [Printf ''SD: '' [], Printf (''Failed to initialize SD card'' @ CRLF) []]"
      "map fst (exchanges pre) = bringup_bytes" "count_list pre (Delay 20) = 0"
      "isSDHC w' = isSDHC w"
    by blast
  have s: "state_of (SD_Init w) = w'" by (simp add: w'(1))
  show "SD_Init w = Halted (state_of (SD_Init w))" by (simp add: w'(1))
  show "\<exists>pre. events_since w (state_of (SD_Init w)) =
            pre @ poll_passes (rx w) (pos w + 52) 10 @
            [Printf ''SD: '' [], Printf (''Failed to initialize SD card'' @ CRLF) []]
          \<and> map fst (exchanges pre) = bringup_bytes \<and> count_list pre (Delay 20) = 0"
    unfolding s using w'(2-4) by blast
  show "count_list (events_since w (state_of (SD_Init w))) (Delay 20) = 10"
    unfolding s w'(2) by (simp add: w'(4))
  show "map fst (exchanges (events_since w (state_of (SD_Init w)))) =
          bringup_bytes @ concat (replicate 10 poll_bytes)"
    unfolding s w'(2) by (simp add: w'(3))
  show "isSDHC (state_of (SD_Init w)) = isSDHC w"
    unfolding s by (rule w'(5))
qed

theorem SD_Init_polling_witness:
  "SD_Init (sim_card 3 0x40) = Returned () (state_of (SD_Init (sim_card 3 0x40)))
   \<and> count_list (events_since (sim_card 3 0x40) (state_of (SD_Init (sim_card 3 0x40))))
        (Delay 20) = 3
   \<and> isSDHC (state_of (SD_Init (sim_card 3 0x40))) = 1
   \<and> SD_Init (sim_card 11 0x40) = Halted (state_of (SD_Init (sim_card 11 0x40)))
   \<and> count_list (events_since (sim_card 11 0x40) (state_of (SD_Init (sim_card 11 0x40))))
        (Delay 20) = 10
   \<and> isSDHC (state_of (SD_Init (sim_card 11 0x40))) = 0"
proof -
  have a: "(1 :: nat) \<le> 3 \<and> (3 :: nat) \<le> 10
      \<and> (\<forall>k<3 - 1. rx (sim_card 3 0x40) (pos (sim_card 3 0x40) + 52 + 16 * k + 15) \<noteq> 0)
      \<and> rx (sim_card 3 0x40) (pos (sim_card 3 0x40) + 52 + 16 * (3 - 1) + 15) = 0"
    by auto
  have b: "\<forall>k<10. rx (sim_card 11 0x40) (pos (sim_card 11 0x40) + 52 + 16 * k + 15) \<noteq> 0"
    by auto
  from a b SD_Init_polling [of 3 "sim_card 3 0x40"] SD_Init_polling [of 0 "sim_card 11 0x40"]
  show ?thesis by simp
qed

text \<open>
  C3. For every sector index, whatever the card answers and however long the call is
  followed, \<open>SD_ReadSectors\<close> selects the card and then sends READ_MULTIPLE_BLOCK with
  the address \<open>sector * 512\<close> when the stored flag \<open>isSDHC\<close> is 0 (standard capacity)
  and with \<open>sector\<close> unchanged when the flag is not 0 (high capacity): the address
  depends on the state only through the stored flag. The product is a product of
  \<^verbatim>\<open>uint32_t\<close>; it is the product of the numbers for every sector below \<open>2^23\<close>.
\<close>

theorem SD_ReadSectors_address:
  "(\<exists>rest. events_since w (state_of (SD_ReadSectors fuel buf sector count w)) =
       Select # command_events SD_READ_MULTIPLE_BLOCK
          (if isSDHC w = 0 then sector * 512 else sector) (rx w) (pos w) @ rest)
   \<and> take 6 (map fst (exchanges (events_since w
         (state_of (SD_ReadSectors fuel buf sector count w))))) =
       (let a = (if isSDHC w = 0 then sector * 512 else sector)
        in [0x52, ucast (drop_bit 24 a), ucast (drop_bit 16 a), ucast (drop_bit 8 a),
            ucast a, 0xFF])
   \<and> (unat sector < 2 ^ 23 \<longrightarrow> unat (sector * 512) = unat sector * 512)"
proof (intro conjI impI)
  let ?a = "if isSDHC w = 0 then sector * 512 else sector"
  obtain rest where r: "events_since w (state_of (SD_ReadSectors fuel buf sector count w)) =
       Select # command_events SD_READ_MULTIPLE_BLOCK ?a (rx w) (pos w) @
       (if rx w (pos w + 7) \<noteq> 0
        then [Printf ''SD: '' [], Printf (''SD_READ_MULTIPLE_BLOCK error'' @ CRLF) []] else []) @
       rest"
    using read_events [of w fuel buf sector count] by blast
  show "\<exists>rest. events_since w (state_of (SD_ReadSectors fuel buf sector count w)) =
       Select # command_events SD_READ_MULTIPLE_BLOCK ?a (rx w) (pos w) @ rest"
    unfolding r by blast
  show "take 6 (map fst (exchanges (events_since w
         (state_of (SD_ReadSectors fuel buf sector count w))))) =
       (let a = ?a
        in [0x52, ucast (drop_bit 24 a), ucast (drop_bit 16 a), ucast (drop_bit 8 a),
            ucast a, 0xFF])"
    unfolding r by (simp add: Let_def SD_READ_MULTIPLE_BLOCK_def)
next
  assume "unat sector < 2 ^ 23"
  then have "unat sector * 512 < 2 ^ 32" by simp
  then show "unat (sector * 512) = unat sector * 512"
    by (simp add: unat_word_ariths)
qed

theorem SD_ReadSectors_address_witness:
  "take 6 (map fst (exchanges (events_since error_card
      (state_of (SD_ReadSectors 0 0 3 1 error_card))))) = [0x52, 0, 0, 6, 0, 0xFF]
   \<and> take 6 (map fst (exchanges (events_since (error_card\<lparr>isSDHC := 1\<rparr>)
      (state_of (SD_ReadSectors 0 0 3 1 (error_card\<lparr>isSDHC := 1\<rparr>)))))) =
       [0x52, 0, 0, 0, 3, 0xFF]
   \<and> unat (3 :: u32) < 2 ^ 23 \<and> unat (3 * 512 :: u32) = 1536"
  using SD_ReadSectors_address [of error_card 0 0 3 1]
    SD_ReadSectors_address [of "error_card\<lparr>isSDHC := 1\<rparr>" 0 0 3 1]
  by (simp add: Let_def error_card_def)

text \<open>
  C4. For every sector index and every value of the flag, whatever the card answers
  and however long the call is followed, \<open>SD_WriteSectors\<close> selects the card and then
  sends WRITE_MULTIPLE_BLOCK one or more times, each time with the address
  \<open>sector * 512\<close> and each time followed by the delay; nothing that follows calls the
  delay again. The flag is not consulted: run from a state that differs only in the
  flag, the call has the same outcome, the flag aside. The product is a product of
  \<^verbatim>\<open>uint32_t\<close>; it is the product of the numbers for every sector below \<open>2^23\<close>.
\<close>

theorem SD_WriteSectors_address:
  "(\<exists>n rest. 1 \<le> n
      \<and> events_since w (state_of (SD_WriteSectors fuel buf sector count w)) =
          Select # write_attempts (sector * 512) (rx w) (pos w) n @ rest
      \<and> map fst (exchanges (write_attempts (sector * 512) (rx w) (pos w) n)) =
          concat (replicate n
            [0x59, ucast (drop_bit 24 (sector * 512)), ucast (drop_bit 16 (sector * 512)),
             ucast (drop_bit 8 (sector * 512)), ucast (sector * 512), 0xFF, 0xFF, 0xFF])
      \<and> count_list rest (Delay 5) = 0)
   \<and> SD_WriteSectors fuel buf sector count (w\<lparr>isSDHC := f\<rparr>) =
       with_flag f (SD_WriteSectors fuel buf sector count w)
   \<and> (unat sector < 2 ^ 23 \<longrightarrow> unat (sector * 512) = unat sector * 512)"
proof (intro conjI impI)
  obtain n rest where "1 \<le> n"
    "events_since w (state_of (SD_WriteSectors fuel buf sector count w)) =
         Select # write_attempts (sector * 512) (rx w) (pos w) n @ rest"
    "count_list rest (Delay 5) = 0"
    using write_events [of w fuel buf sector count] by blast
  then show "\<exists>n rest. 1 \<le> n
      \<and> events_since w (state_of (SD_WriteSectors fuel buf sector count w)) =
          Select # write_attempts (sector * 512) (rx w) (pos w) n @ rest
      \<and> map fst (exchanges (write_attempts (sector * 512) (rx w) (pos w) n)) =
          concat (replicate n
            [0x59, ucast (drop_bit 24 (sector * 512)), ucast (drop_bit 16 (sector * 512)),
             ucast (drop_bit 8 (sector * 512)), ucast (sector * 512), 0xFF, 0xFF, 0xFF])
      \<and> count_list rest (Delay 5) = 0"
    by (intro exI [of _ n] exI [of _ rest]) (simp only: write_attempts_facts simp_thms)
  show "SD_WriteSectors fuel buf sector count (w\<lparr>isSDHC := f\<rparr>) =
       with_flag f (SD_WriteSectors fuel buf sector count w)"
    by (rule flag_WriteSectors)
next
  assume "unat sector < 2 ^ 23"
  then have "unat sector * 512 < 2 ^ 32" by simp
  then show "unat (sector * 512) = unat sector * 512"
    by (simp add: unat_word_ariths)
qed

theorem SD_WriteSectors_address_witness:
  "take 6 (map fst (exchanges (events_since (error_card\<lparr>isSDHC := 1\<rparr>)
      (state_of (SD_WriteSectors 1 0 3 1 (error_card\<lparr>isSDHC := 1\<rparr>)))))) =
       [0x59, 0, 0, 6, 0, 0xFF]
   \<and> SD_WriteSectors 1 0 3 1 (error_card\<lparr>isSDHC := 1\<rparr>) =
       with_flag 1 (SD_WriteSectors 1 0 3 1 error_card)
   \<and> unat (3 :: u32) < 2 ^ 23 \<and> unat (3 * 512 :: u32) = 1536"
proof -
  note t = SD_WriteSectors_address [of "error_card\<lparr>isSDHC := 1\<rparr>" 1 0 3 1 1]
  from t obtain n rest where n: "1 \<le> n"
    "events_since (error_card\<lparr>isSDHC := 1\<rparr>)
       (state_of (SD_WriteSectors 1 0 3 1 (error_card\<lparr>isSDHC := 1\<rparr>))) =
     Select # write_attempts (3 * 512) (rx (error_card\<lparr>isSDHC := 1\<rparr>))
       (pos (error_card\<lparr>isSDHC := 1\<rparr>)) n @ rest"
    by blast
  obtain m where m: "n = Suc m" using n(1) by (cases n) simp_all
  have "take 6 (map fst (exchanges (events_since (error_card\<lparr>isSDHC := 1\<rparr>)
      (state_of (SD_WriteSectors 1 0 3 1 (error_card\<lparr>isSDHC := 1\<rparr>)))))) =
       [0x59, 0, 0, 6, 0, 0xFF]"
    unfolding n(2) m write_attempts_Suc by (simp add: SD_WRITE_MULTIPLE_BLOCK_def)
  moreover have "SD_WriteSectors 1 0 3 1 (error_card\<lparr>isSDHC := 1\<rparr>) =
       with_flag 1 (SD_WriteSectors 1 0 3 1 error_card)"
    using SD_WriteSectors_address [of error_card 1 0 3 1 1] by blast
  moreover have "unat (3 :: u32) < 2 ^ 23 \<and> unat (3 * 512 :: u32) = 1536"
    using t by simp
  ultimately show ?thesis by blast
qed

text \<open>
  C5. Whenever \<open>SD_Init\<close> returns, the last twelve bytes it exchanged are the READ_OCR
  command sent after the polling loop (frame \<open>0x7A 0 0 0 0 0xFF\<close>, two fillers) and
  the four fillers that read the OCR. With \<open>ocr0\<close> the byte received for the first of
  these four, the capacity flag is 1 (high capacity) exactly when bit 6 (mask \<open>0x40\<close>) of
  \<open>ocr0\<close> is set, and 0 (standard capacity) when it is clear; in particular \<open>0x40\<close>
  gives 1 and \<open>0x00\<close> gives 0.
\<close>

theorem SD_Init_capacity_flag:
  assumes "SD_Init w = Returned () w'"
  shows "let xs = exchanges (events_since w w'); ocr0 = snd (xs ! (length xs - 4))
     in 12 \<le> length xs
      \<and> map fst (drop (length xs - 12) xs) =
          [0x7A, 0, 0, 0, 0, 0xFF, 0xFF, 0xFF, 0xFF, 0xFF, 0xFF, 0xFF]
      \<and> isSDHC w' = (if bit ocr0 6 then 1 else 0)
      \<and> (ocr0 = 0x40 \<longrightarrow> isSDHC w' = 1)
      \<and> (ocr0 = 0x00 \<longrightarrow> isSDHC w' = 0)"
proof -
  let ?w1 = "snd (SD_Init_bringup w)"
  let ?buf = "fst (SD_Init_bringup w)"
  from init_returned [OF assms] obtain w2 where
    w2: "SD_Init_poll 0 ?w1 = Returned () w2" "w' = SD_Init_capacity ?buf w2"
    by blast
  obtain es1 where es1: "trace ?w1 = trace w @ es1"
    using bringup_trace [of w] by auto
  have "\<exists>es. trace (state_of (SD_Init_poll 0 ?w1)) = trace ?w1 @ es"
    by (rule poll_extends)
  then obtain es2 where es2: "trace w2 = trace ?w1 @ es2"
    by (auto simp: w2(1))
  let ?twelve = "[(0x7A, rx w2 (pos w2)), (0, rx w2 (pos w2 + 1)), (0, rx w2 (pos w2 + 2)),
         (0, rx w2 (pos w2 + 3)), (0, rx w2 (pos w2 + 4)), (0xFF, rx w2 (pos w2 + 5)),
         (0xFF, rx w2 (pos w2 + 6)), (0xFF, rx w2 (pos w2 + 7)), (0xFF, rx w2 (pos w2 + 8)),
         (0xFF, rx w2 (pos w2 + 9)), (0xFF, rx w2 (pos w2 + 10)), (0xFF, rx w2 (pos w2 + 11))]"
  obtain es3 where es3: "trace w' = trace w2 @ es3" "exchanges es3 = ?twelve"
    using capacity_trace [of ?buf w2] w2(2) by blast
  have "trace w' = trace w @ (es1 @ es2 @ es3)"
    by (simp only: es3(1) es2 es1 append_assoc)
  then have ev: "events_since w w' = es1 @ es2 @ es3"
    by (rule events_since_append)
  define pre where "pre = exchanges es1 @ exchanges es2"
  have xs: "exchanges (events_since w w') = pre @ ?twelve"
    by (simp add: ev es3(2) pre_def)
  have len: "length (pre @ ?twelve) - 12 = length pre" "length (pre @ ?twelve) - 4 = length pre + 8"
    by simp_all
  have flag: "isSDHC w' = (if bit (rx w2 (pos w2 + 8)) 6 then 1 else 0)"
    unfolding w2(2) by (subst capacity_frame) (simp_all add: bringup_buf bit6)
  show ?thesis
    unfolding Let_def xs len by (simp add: flag nth_append)
qed

theorem SD_Init_capacity_flag_witness:
  "SD_Init (sim_card 1 0x40) = Returned () (state_of (SD_Init (sim_card 1 0x40)))
   \<and> isSDHC (state_of (SD_Init (sim_card 1 0x40))) = 1
   \<and> (let xs = exchanges (events_since (sim_card 1 0x40) (state_of (SD_Init (sim_card 1 0x40))));
          ocr0 = snd (xs ! (length xs - 4))
      in bit ocr0 6
       \<and> map fst (drop (length xs - 12) xs) =
          [0x7A, 0, 0, 0, 0, 0xFF, 0xFF, 0xFF, 0xFF, 0xFF, 0xFF, 0xFF])
   \<and> SD_Init (sim_card 1 0x00) = Returned () (state_of (SD_Init (sim_card 1 0x00)))
   \<and> isSDHC (state_of (SD_Init (sim_card 1 0x00))) = 0
   \<and> (let xs = exchanges (events_since (sim_card 1 0x00) (state_of (SD_Init (sim_card 1 0x00))));
          ocr0 = snd (xs ! (length xs - 4))
      in \<not> bit ocr0 6)"
proof -
  have h: "(0 :: nat) < 10"
    "\<forall>k<0. rx (sim_card 1 0x40) (pos (sim_card 1 0x40) + 52 + 16 * k + 15) \<noteq> 0"
    "rx (sim_card 1 0x40) (pos (sim_card 1 0x40) + 52 + 16 * 0 + 15) = 0"
    by simp_all
  from init_ready [OF h] obtain w' where
    w': "SD_Init (sim_card 1 0x40) = Returned () w'" "isSDHC w' = 1"
    by auto
  have g: "(0 :: nat) < 10"
    "\<forall>k<0. rx (sim_card 1 0x00) (pos (sim_card 1 0x00) + 52 + 16 * k + 15) \<noteq> 0"
    "rx (sim_card 1 0x00) (pos (sim_card 1 0x00) + 52 + 16 * 0 + 15) = 0"
    by simp_all
  from init_ready [OF g] obtain v' where
    v': "SD_Init (sim_card 1 0x00) = Returned () v'" "isSDHC v' = 0"
    by auto
  from SD_Init_capacity_flag [OF w'(1)] SD_Init_capacity_flag [OF v'(1)] w' v' show ?thesis
    by (simp add: Let_def split: if_splits)
qed

text \<open>
  C6. For every command, the bytes \<open>SD_SendCommand\<close> exchanges after the six bytes of
  the frame are exactly two, both fillers \<open>0xFF\<close>. The byte received for the first
  filler is dropped; the byte received for the second is the value returned. Whatever
  the card answers to the first filler, the returned value is the same.
\<close>

theorem SD_SendCommand_probe:
  "drop 6 (exchanges (events_since w (snd (SD_SendCommand cmd args w)))) =
     [(0xFF, rx w (pos w + 6)), (0xFF, fst (SD_SendCommand cmd args w))]
   \<and> fst (SD_SendCommand cmd args w) = rx w (pos w + 7)
   \<and> fst (SD_SendCommand cmd args (w\<lparr>rx := (rx w)(pos w + 6 := b)\<rparr>)) =
       fst (SD_SendCommand cmd args w)"
  by (simp add: SD_SendCommand_trace)

theorem SD_SendCommand_probe_witness:
  "fst (SD_SendCommand 18 0 (card_of (\<lambda>n. if n = 6 then 0xAB else if n = 7 then 5 else 0xFF)))
     = 5
   \<and> drop 6 (exchanges (events_since
        (card_of (\<lambda>n. if n = 6 then 0xAB else if n = 7 then 5 else 0xFF))
        (snd (SD_SendCommand 18 0
          (card_of (\<lambda>n. if n = 6 then 0xAB else if n = 7 then 5 else 0xFF)))))) =
       [(0xFF, 0xAB), (0xFF, 5)]"
  using SD_SendCommand_probe
    [of "card_of (\<lambda>n. if n = 6 then 0xAB else if n = 7 then 5 else 0xFF)" 18 0 0]
  by simp

text \<open>
  C7. The status of attempt \<open>k\<close> (from 0) of the loop that sends WRITE_MULTIPLE_BLOCK is
  \<open>rx w (pos w + 8 * k + 7)\<close>: each attempt clocks 8 bytes and the status is the last.
  If the status is not zero on the first two attempts and zero on the third, and the
  loop is followed for at least two repetitions, then the call selects the card, makes
  exactly three attempts, each followed by \<open>TIMER_Delay(5)\<close>, and then sends the filler
  that opens the payload phase; there is no further delay, hence no further attempt.
  In general, for every \<open>n\<close>, if the status is zero for the first time on attempt \<open>n\<close>
  (from 0) the call makes exactly \<open>n + 1\<close> attempts: there is no maximum. If the status
  is never zero, the call never returns: whatever the fuel, it is still in the loop
  after \<open>fuel + 1\<close> attempts.
\<close>

theorem SD_WriteSectors_retry:
  "(rx w (pos w + 7) \<noteq> 0 \<and> rx w (pos w + 15) \<noteq> 0 \<and> rx w (pos w + 23) = 0 \<and> 2 \<le> fuel \<longrightarrow>
      (\<exists>rest. events_since w (state_of (SD_WriteSectors fuel buf sector count w)) =
          Select #
          command_events SD_WRITE_MULTIPLE_BLOCK (sector * 512) (rx w) (pos w) @ [Delay 5] @
          command_events SD_WRITE_MULTIPLE_BLOCK (sector * 512) (rx w) (pos w + 8) @ [Delay 5] @
          command_events SD_WRITE_MULTIPLE_BLOCK (sector * 512) (rx w) (pos w + 16) @ [Delay 5] @
          Xfer 0xFF (rx w (pos w + 24)) # rest
        \<and> count_list rest (Delay 5) = 0))
   \<and> ((\<forall>k<n. rx w (pos w + 8 * k + 7) \<noteq> 0) \<and> rx w (pos w + 8 * n + 7) = 0 \<and> n \<le> fuel \<longrightarrow>
      count_list (events_since w (state_of (SD_WriteSectors fuel buf sector count w)))
        (Delay 5) = Suc n)
   \<and> ((\<forall>k. rx w (pos w + 8 * k + 7) \<noteq> 0) \<longrightarrow>
      SD_WriteSectors fuel buf sector count w =
        OutOfFuel (state_of (SD_WriteSectors fuel buf sector count w))
      \<and> count_list (events_since w (state_of (SD_WriteSectors fuel buf sector count w)))
          (Delay 5) = Suc fuel)"
proof (intro conjI impI)
  assume h: "rx w (pos w + 7) \<noteq> 0 \<and> rx w (pos w + 15) \<noteq> 0 \<and> rx w (pos w + 23) = 0
      \<and> 2 \<le> fuel"
  have a: "\<forall>k<2. rx w (pos w + 8 * k + 7) \<noteq> 0"
  proof (intro allI impI)
    fix k :: nat assume "k < 2"
    then have "k = 0 \<or> k = 1" by auto
    then show "rx w (pos w + 8 * k + 7) \<noteq> 0" using h by auto
  qed
  have b: "rx w (pos w + 8 * 2 + 7) = 0" "2 \<le> fuel" using h by simp_all
  have three: "Suc 2 = Suc (Suc (Suc 0))" by simp
  from write_retry [OF a b, of buf sector count]
  show "\<exists>rest. events_since w (state_of (SD_WriteSectors fuel buf sector count w)) =
          Select #
          command_events SD_WRITE_MULTIPLE_BLOCK (sector * 512) (rx w) (pos w) @ [Delay 5] @
          command_events SD_WRITE_MULTIPLE_BLOCK (sector * 512) (rx w) (pos w + 8) @ [Delay 5] @
          command_events SD_WRITE_MULTIPLE_BLOCK (sector * 512) (rx w) (pos w + 16) @ [Delay 5] @
          Xfer 0xFF (rx w (pos w + 24)) # rest
        \<and> count_list rest (Delay 5) = 0"
    unfolding three write_attempts_Suc write_attempts_0 by simp
next
  assume h: "(\<forall>k<n. rx w (pos w + 8 * k + 7) \<noteq> 0) \<and> rx w (pos w + 8 * n + 7) = 0 \<and> n \<le> fuel"
  then have a: "\<forall>k<n. rx w (pos w + 8 * k + 7) \<noteq> 0" "rx w (pos w + 8 * n + 7) = 0" "n \<le> fuel"
    by simp_all
  from write_retry [OF a, of buf sector count]
  show "count_list (events_since w (state_of (SD_WriteSectors fuel buf sector count w)))
        (Delay 5) = Suc n"
    by auto
next
  assume h: "\<forall>k. rx w (pos w + 8 * k + 7) \<noteq> 0"
  then have a: "\<forall>k\<le>fuel. rx w (pos w + 8 * k + 7) \<noteq> 0" by simp
  from write_never [OF a, of buf sector count]
  show "SD_WriteSectors fuel buf sector count w =
        OutOfFuel (state_of (SD_WriteSectors fuel buf sector count w))"
    and "count_list (events_since w (state_of (SD_WriteSectors fuel buf sector count w)))
          (Delay 5) = Suc fuel"
    by simp_all
qed

theorem SD_WriteSectors_retry_witness:
  "(\<exists>rest. events_since retry_card (state_of (SD_WriteSectors 2 0 3 1 retry_card)) =
          Select #
          command_events SD_WRITE_MULTIPLE_BLOCK (3 * 512) (rx retry_card) (pos retry_card)
            @ [Delay 5] @
          command_events SD_WRITE_MULTIPLE_BLOCK (3 * 512) (rx retry_card) (pos retry_card + 8)
            @ [Delay 5] @
          command_events SD_WRITE_MULTIPLE_BLOCK (3 * 512) (rx retry_card) (pos retry_card + 16)
            @ [Delay 5] @
          Xfer 0xFF (rx retry_card (pos retry_card + 24)) # rest
        \<and> count_list rest (Delay 5) = 0)
   \<and> count_list (events_since retry_card (state_of (SD_WriteSectors 2 0 3 1 retry_card)))
        (Delay 5) = 3
   \<and> SD_WriteSectors 9 0 3 1 idle_card =
        OutOfFuel (state_of (SD_WriteSectors 9 0 3 1 idle_card))
   \<and> count_list (events_since idle_card (state_of (SD_WriteSectors 9 0 3 1 idle_card)))
        (Delay 5) = 10"
proof -
  note t1 = SD_WriteSectors_retry [of retry_card 2 0 3 1 2]
  note t2 = SD_WriteSectors_retry [of idle_card 9 0 3 1 0]
  have a: "rx retry_card (pos retry_card + 7) \<noteq> 0 \<and> rx retry_card (pos retry_card + 15) \<noteq> 0
      \<and> rx retry_card (pos retry_card + 23) = 0 \<and> (2 :: nat) \<le> 2"
    by (simp add: retry_card_def)
  have b: "(\<forall>k<2. rx retry_card (pos retry_card + 8 * k + 7) \<noteq> 0)
      \<and> rx retry_card (pos retry_card + 8 * 2 + 7) = 0 \<and> (2 :: nat) \<le> 2"
    by (auto simp: retry_card_def)
  have c: "\<forall>k. rx idle_card (pos idle_card + 8 * k + 7) \<noteq> 0"
    by (simp add: idle_card_def)
  have A: "\<exists>rest. events_since retry_card (state_of (SD_WriteSectors 2 0 3 1 retry_card)) =
          Select #
          command_events SD_WRITE_MULTIPLE_BLOCK (3 * 512) (rx retry_card) (pos retry_card)
            @ [Delay 5] @
          command_events SD_WRITE_MULTIPLE_BLOCK (3 * 512) (rx retry_card) (pos retry_card + 8)
            @ [Delay 5] @
          command_events SD_WRITE_MULTIPLE_BLOCK (3 * 512) (rx retry_card) (pos retry_card + 16)
            @ [Delay 5] @
          Xfer 0xFF (rx retry_card (pos retry_card + 24)) # rest
        \<and> count_list rest (Delay 5) = 0"
    by (rule mp [OF conjunct1 [OF t1] a])
  have B: "count_list (events_since retry_card (state_of (SD_WriteSectors 2 0 3 1 retry_card)))
        (Delay 5) = Suc 2"
    by (rule mp [OF conjunct1 [OF conjunct2 [OF t1]] b])
  have C: "SD_WriteSectors 9 0 3 1 idle_card =
        OutOfFuel (state_of (SD_WriteSectors 9 0 3 1 idle_card))
      \<and> count_list (events_since idle_card (state_of (SD_WriteSectors 9 0 3 1 idle_card)))
          (Delay 5) = Suc 9"
    by (rule mp [OF conjunct2 [OF conjunct2 [OF t2]] c])
  have n: "Suc 2 = 3" "Suc 9 = 10" by simp_all
  from A B C show ?thesis unfolding n by blast
qed

text \<open>
  C8. Whenever \<open>SD_ReadSectors\<close> or \<open>SD_WriteSectors\<close> returns, the value returned is 0,
  whatever status bytes the card sent. The status of the transfer command is printed;
  when the status of READ_MULTIPLE_BLOCK is not zero the error message is printed as
  well, and the value returned is 0 all the same.
\<close>

theorem SD_transfer_result:
  "(SD_ReadSectors fuel buf sector count w = Returned r w' \<longrightarrow>
      r = 0
      \<and> Printf (''Response to cmd %d is %02x'' @ CRLF) [18, rx w (pos w + 7)]
          \<in> set (events_since w w')
      \<and> (rx w (pos w + 7) \<noteq> 0 \<longrightarrow>
          Printf (''SD_READ_MULTIPLE_BLOCK error'' @ CRLF) [] \<in> set (events_since w w')))
   \<and> (SD_WriteSectors fuel buf sector count w = Returned r w' \<longrightarrow>
      r = 0
      \<and> Printf (''Response to cmd %d is %02x'' @ CRLF) [25, rx w (pos w + 7)]
          \<in> set (events_since w w'))"
proof (intro conjI impI)
  assume h: "SD_ReadSectors fuel buf sector count w = Returned r w'"
  then show "r = 0"
    by (auto simp add: SD_ReadSectors_def Let_def split_beta split: outcome.splits)
  obtain rest where r: "events_since w (state_of (SD_ReadSectors fuel buf sector count w)) =
       Select # command_events SD_READ_MULTIPLE_BLOCK
          (if isSDHC w = 0 then sector * 512 else sector) (rx w) (pos w) @
       (if rx w (pos w + 7) \<noteq> 0
        then [Printf ''SD: '' [], Printf (''SD_READ_MULTIPLE_BLOCK error'' @ CRLF) []] else []) @
       rest"
    using read_events [of w fuel buf sector count] by blast
  show "Printf (''Response to cmd %d is %02x'' @ CRLF) [18, rx w (pos w + 7)]
          \<in> set (events_since w w')"
    using r by (simp add: h command_events_def SD_READ_MULTIPLE_BLOCK_def)
  show "Printf (''SD_READ_MULTIPLE_BLOCK error'' @ CRLF) [] \<in> set (events_since w w')"
    if "rx w (pos w + 7) \<noteq> 0"
    using r that by (simp add: h)
next
  assume h: "SD_WriteSectors fuel buf sector count w = Returned r w'"
  then show "r = 0"
    by (auto simp add: SD_WriteSectors_def Let_def split_beta split: outcome.splits)
  obtain n rest where n: "1 \<le> n"
    "events_since w (state_of (SD_WriteSectors fuel buf sector count w)) =
         Select # write_attempts (sector * 512) (rx w) (pos w) n @ rest"
    using write_events [of w fuel buf sector count] by blast
  obtain m where m: "n = Suc m" using n(1) by (cases n) simp_all
  show "Printf (''Response to cmd %d is %02x'' @ CRLF) [25, rx w (pos w + 7)]
          \<in> set (events_since w w')"
    using n(2) unfolding m write_attempts_Suc
    by (simp add: h command_events_def SD_WRITE_MULTIPLE_BLOCK_def)
qed

theorem SD_transfer_result_witness:
  "(\<exists>w'. SD_ReadSectors 0 0 3 1 error_card = Returned 0 w'
      \<and> rx error_card (pos error_card + 7) = 4
      \<and> Printf (''SD_READ_MULTIPLE_BLOCK error'' @ CRLF) [] \<in> set (events_since error_card w'))
   \<and> (\<exists>w'. SD_WriteSectors 1 0 3 1 error_card = Returned 0 w'
      \<and> Printf (''Response to cmd %d is %02x'' @ CRLF) [25, 4] \<in> set (events_since error_card w'))"
proof
  have "rx error_card (pos error_card + 8) = 0xFE" "rx error_card (pos error_card + 531) \<noteq> 0"
    by (simp_all add: error_card_def)
  from read_returns_one [OF this, of 0 0 3] obtain r w' where
    h: "SD_ReadSectors 0 0 3 1 error_card = Returned r w'" by blast
  have s: "rx error_card (pos error_card + 7) = 4" by (simp add: error_card_def)
  from SD_transfer_result [of 0 0 3 1 error_card r w'] h s
  show "\<exists>w'. SD_ReadSectors 0 0 3 1 error_card = Returned 0 w'
      \<and> rx error_card (pos error_card + 7) = 4
      \<and> Printf (''SD_READ_MULTIPLE_BLOCK error'' @ CRLF) [] \<in> set (events_since error_card w')"
    by simp
next
  have "\<forall>k<1. rx error_card (pos error_card + 8 * k + 7) \<noteq> 0"
    "rx error_card (pos error_card + 8 * 1 + 7) = 0" "(1 :: nat) \<le> 1"
    "rx error_card (pos error_card + 8 * Suc 1 + 515 * unat (1 :: u32) + 3) \<noteq> 0"
    by (simp_all add: error_card_def)
  from write_returns [OF this, of 0 3] obtain r w' where
    h: "SD_WriteSectors 1 0 3 1 error_card = Returned r w'" by blast
  have s: "rx error_card (pos error_card + 7) = 4" by (simp add: error_card_def)
  from SD_transfer_result [of 1 0 3 1 error_card r w'] h s
  show "\<exists>w'. SD_WriteSectors 1 0 3 1 error_card = Returned 0 w'
      \<and> Printf (''Response to cmd %d is %02x'' @ CRLF) [25, 4] \<in> set (events_since error_card w')"
    by simp
qed

text \<open>
  C9. Every run of \<open>SD_Init\<close>, whether it returns or halts, begins with these events:
  the SPI set-up, the selection of the card, exactly 20 transmissions of the filler
  \<open>0xFF\<close>, and then the frame of the first command, GO_IDLE_STATE. So the 20 fillers
  come after the selection and before every command frame of the bring-up.
\<close>

theorem SD_Init_sync_sequence:
  "\<exists>rest. events_since w (state_of (SD_Init w)) =
     [SpiInit, Select] @ map (\<lambda>k. Xfer 0xFF (rx w (pos w + k))) [0..<20] @
     [Xfer 0x40 (rx w (pos w + 20)), Xfer 0 (rx w (pos w + 21)), Xfer 0 (rx w (pos w + 22)),
      Xfer 0 (rx w (pos w + 23)), Xfer 0 (rx w (pos w + 24)), Xfer 0x95 (rx w (pos w + 25))] @
     rest"
  by (rule init_extends)

theorem SD_Init_sync_sequence_witness:
  "\<exists>rest. events_since idle_card (state_of (SD_Init idle_card)) =
     [SpiInit, Select] @ map (\<lambda>k. Xfer 0xFF 1) [0..<20] @
     [Xfer 0x40 1, Xfer 0 1, Xfer 0 1, Xfer 0 1, Xfer 0 1, Xfer 0x95 1] @ rest"
  using SD_Init_sync_sequence [of idle_card]
  by (simp add: idle_card_def)

text \<open>
  C10. For every call of \<open>SD_ReadSectors\<close> and of \<open>SD_WriteSectors\<close>, with any
  arguments, any card and any fuel, the flag \<open>isSDHC\<close> of the state the call reaches
  (on return, or where it is still waiting) is the flag of the state it started in.
\<close>

theorem SD_flag_unchanged:
  "isSDHC (state_of (SD_ReadSectors fuel buf sector count w)) = isSDHC w
   \<and> isSDHC (state_of (SD_WriteSectors fuel buf sector count w)) = isSDHC w"
  using read_events [of w fuel buf sector count] write_events [of w fuel buf sector count]
  by blast

theorem SD_flag_unchanged_witness:
  "isSDHC (state_of (SD_ReadSectors 0 0 3 1 (error_card\<lparr>isSDHC := 1\<rparr>))) = 1
   \<and> isSDHC (state_of (SD_WriteSectors 1 0 3 1 (error_card\<lparr>isSDHC := 1\<rparr>))) = 1
   \<and> isSDHC (state_of (SD_WriteSectors 1 0 3 1 error_card)) = 0"
  using SD_flag_unchanged [of 0 0 3 1 "error_card\<lparr>isSDHC := 1\<rparr>"]
    SD_flag_unchanged [of 1 0 3 1 "error_card\<lparr>isSDHC := 1\<rparr>"]
    SD_flag_unchanged [of 1 0 3 1 error_card]
  by (simp add: error_card_def)

end
